theory Spec2Isabelle
  imports Complex_Main "HOL-Library.Monad_Syntax"
begin

unbundle bit_operations_syntax

section \<open>Conventions of the embedding\<close>

text \<open>
  The theory embeds \<^verbatim>\<open>bayesian_collaborative_denoiser.cpp\<close>.

  \<^item> \<^verbatim>\<open>uint\<close> values are natural numbers. Unsigned subtraction wraps around modulo
    \<open>2 ^ 32\<close> as in the source (\<open>usub\<close>), and so does the product of \<open>getChunkSize\<close>
    (\<open>umul\<close>);
    the other sums and products are taken unwrapped, that is, the embedding is about
    images and patches whose sizes fit in 32 bits.
  \<^item> A \<^verbatim>\<open>Float\<close> value is a real number. The arithmetic of \<^verbatim>\<open>Float\<close> in
    \<^verbatim>\<open>Parameters::init\<close> and in the histogram distance, the results of which are compared
    with exact values, is a parameter of the embedding (\<open>Arithmetic\<close>): what is proved
    about them holds for every rounding. The other operations on \<^verbatim>\<open>Float\<close> are those of
    the real numbers.
  \<^item> An \<^verbatim>\<open>ArithArray<Float, N>\<close> is a list of reals; a \<^verbatim>\<open>std::bitset\<close> is a list of
    truth values; a \<^verbatim>\<open>pmr::vector\<close> is a list.
  \<^item> An access outside a vector, a failed \<^verbatim>\<open>ZISC_ASSERT\<close>, a division by zero of
    unsigned integers and an exception in a \<^verbatim>\<open>noexcept\<close> function end the run: the
    result is \<open>None\<close>.
  \<^item> The \<^verbatim>\<open>#pragma omp parallel for\<close> loops run their iterations in index order.
\<close>

type_synonym uint = nat
type_synonym Index2d = "nat \<times> nat"

definition usub :: "uint \<Rightarrow> uint \<Rightarrow> uint" where
  "usub a b = (if b \<le> a then a - b else a + 4294967296 - b)"

definition umul :: "uint \<Rightarrow> uint \<Rightarrow> uint" where
  "umul a b = nat ((int a * int b) mod 4294967296)"

definition vec_at :: "'a list \<Rightarrow> nat \<Rightarrow> 'a option" where
  "vec_at xs i = (if i < length xs then Some (xs ! i) else None)"

definition vec_put :: "'a list \<Rightarrow> nat \<Rightarrow> 'a \<Rightarrow> 'a list option" where
  "vec_put xs i v = (if i < length xs then Some (xs[i := v]) else None)"

section \<open>Floating-point arithmetic\<close>

text \<open>The operations on \<^verbatim>\<open>Float\<close> (\<^verbatim>\<open>float\<close> or \<^verbatim>\<open>double\<close>, by the configuration of
  the build): sum, difference, product and quotient, each with its rounding, and the
  conversion \<^verbatim>\<open>zisc::cast<Float>\<close> of an unsigned integer.\<close>

record Arithmetic =
  fadd :: "real \<Rightarrow> real \<Rightarrow> real"
  fsub :: "real \<Rightarrow> real \<Rightarrow> real"
  fmul :: "real \<Rightarrow> real \<Rightarrow> real"
  fdiv :: "real \<Rightarrow> real \<Rightarrow> real"
  fcast :: "nat \<Rightarrow> real"

text \<open>The arithmetic without rounding.\<close>

definition exact_arithmetic :: Arithmetic where
  "exact_arithmetic = \<lparr>fadd = (+), fsub = (-), fmul = (*), fdiv = (/), fcast = real\<rparr>"

text \<open>The arithmetic of IEEE 754 binary floating point with a significand of \<open>prec\<close> bits
  (53 for \<^verbatim>\<open>double\<close>): the exact result is rounded to the nearest number
  \<open>m * 2 ^ e\<close> with \<open>|m| < 2 ^ prec\<close>, a tie to the one with even \<open>m\<close>. The exponent
  range is not modelled: the definition is right for results that neither overflow nor fall
  below the normal numbers. \<open>float_exponent x\<close> is the integer \<open>e\<close> with
  \<open>2 ^ e \<le> |x| < 2 ^ (e + 1)\<close>.\<close>

function bit_length :: "int \<Rightarrow> int" where
  "bit_length n = (if n \<le> 0 then 0 else 1 + bit_length (n div 2))"
  by pat_completeness auto

termination
  by (relation "measure nat") auto

definition pow2 :: "int \<Rightarrow> real" where
  "pow2 e = (if 0 \<le> e then 2 ^ nat e else 1 / 2 ^ nat (- e))"

definition float_exponent :: "real \<Rightarrow> int" where
  "float_exponent x =
     (let a = \<bar>x\<bar>
      in if 1 \<le> a then bit_length \<lfloor>a\<rfloor> - 1
         else let f = bit_length \<lfloor>1 / a\<rfloor> - 1
              in if 1 / a = pow2 f then - f else - f - 1)"

definition round_even :: "real \<Rightarrow> int" where
  "round_even x =
     (let f = \<lfloor>x\<rfloor>; r = x - of_int f
      in if r < 1 / 2 then f else if 1 / 2 < r then f + 1 else if even f then f else f + 1)"

definition round_float :: "nat \<Rightarrow> real \<Rightarrow> real" where
  "round_float prec x =
     (if x = 0 then 0
      else let e = float_exponent x - (int prec - 1)
           in of_int (round_even (x / pow2 e)) * pow2 e)"

definition ieee_arithmetic :: "nat \<Rightarrow> Arithmetic" where
  "ieee_arithmetic prec = \<lparr>fadd = (\<lambda>a b. round_float prec (a + b)),
     fsub = (\<lambda>a b. round_float prec (a - b)),
     fmul = (\<lambda>a b. round_float prec (a * b)),
     fdiv = (\<lambda>a b. round_float prec (a / b)),
     fcast = (\<lambda>n. round_float prec (real n))\<rparr>"

section \<open>The denoiser object\<close>

text \<open>
  The members set by \<^verbatim>\<open>initialize\<close>, and the constants of the class declaration, which
  is not part of the sources at hand: \<open>kMarkerRepBits\<close> (a \<^verbatim>\<open>Marker\<close> is a bitset of
  \<open>2 ^ kMarkerRepBits\<close> bits, by the \<^verbatim>\<open>static_assert\<close> of the \<^verbatim>\<open>PixelMarker\<close>
  constructor), \<open>kMaskSize\<close> (the number of bits of a \<^verbatim>\<open>SimilarPatchMask\<close>) and
  \<open>getChunkTileOrder\<close> (the fixed order of the tile positions). The matrix inverse of
  the \<^verbatim>\<open>zisc\<close> library, \<open>inverseMatrix\<close>, is a parameter as well, and so is the
  arithmetic of \<^verbatim>\<open>Float\<close>.
\<close>

record Denoiser =
  histogramBins :: uint
  histogram_distance_threshold :: real
  patch_radius :: uint
  search_radius :: uint
  num_of_scales :: uint
  kMarkerRepBits :: nat
  kMaskSize :: nat
  getChunkTileOrder :: "Index2d list"
  inverseMatrix :: "real list list \<Rightarrow> real list list"
  arithmetic :: Arithmetic

datatype RenderingColorMode = kRgb | kSpectra

record System =
  imageResolution :: Index2d
  numOfThreads :: uint
  colorMode :: RenderingColorMode
  spectraSize :: nat

subsection \<open>Sizes\<close>

text \<open>\<^verbatim>\<open>3 * search_radius_\<close> is a product of \<^verbatim>\<open>uint\<close> values: it wraps around
  (\<open>umul\<close>).\<close>

definition getChunkSize :: "Denoiser \<Rightarrow> uint" where
  "getChunkSize d = umul 3 (search_radius d)"

definition getNumOfPatchPixels :: "Denoiser \<Rightarrow> uint" where
  "getNumOfPatchPixels d = (2 * patch_radius d + 1) ^ 2"

definition getNumOfSearchWindowPixels :: "Denoiser \<Rightarrow> uint" where
  "getNumOfSearchWindowPixels d = (2 * search_radius d + 1) ^ 2"

definition getPatchDimension :: "nat \<Rightarrow> Denoiser \<Rightarrow> uint" where
  "getPatchDimension kDimension d = kDimension * getNumOfPatchPixels d"

definition getChunkResolution :: "Denoiser \<Rightarrow> Index2d \<Rightarrow> Index2d option" where
  "getChunkResolution d resolution =
     (let r0 = usub (fst resolution) (2 * patch_radius d);
          r1 = usub (snd resolution) (2 * patch_radius d);
          chunk_size = getChunkSize d
      in if chunk_size = 0 then None
         else let chunk_w = (r0 div chunk_size) + (if r0 mod chunk_size \<noteq> 0 then 1 else 0);
                  chunk_h = (r1 div chunk_size) + (if r1 mod chunk_size \<noteq> 0 then 1 else 0)
              in Some (chunk_w, chunk_h))"

section \<open>PixelMarker\<close>

text \<open>The marker table: one bitset of \<open>2 ^ kMarkerRepBits\<close> bits per entry.\<close>

type_synonym Marker = "bool list"
type_synonym PixelMarker = "Marker list"

definition PixelMarker :: "Denoiser \<Rightarrow> System \<Rightarrow> PixelMarker" where
  "PixelMarker d system =
     (let resolution = imageResolution system;
          num_of_marks = drop_bit (kMarkerRepBits d) (fst resolution * snd resolution)
      in replicate num_of_marks (replicate (2 ^ kMarkerRepBits d) False))"

definition clear :: "PixelMarker \<Rightarrow> PixelMarker" where
  "clear marker_table = map (\<lambda>marker. map (\<lambda>b. False) marker) marker_table"

definition isMarked :: "Denoiser \<Rightarrow> PixelMarker \<Rightarrow> uint \<Rightarrow> bool option" where
  "isMarked d marker_table index =
     (let mask = 2 ^ kMarkerRepBits d - 1;
          marker_index = drop_bit (kMarkerRepBits d) index;
          i = index AND mask
      in do { marker \<leftarrow> vec_at marker_table marker_index; vec_at marker i })"

definition mark :: "Denoiser \<Rightarrow> PixelMarker \<Rightarrow> uint \<Rightarrow> PixelMarker option" where
  "mark d marker_table index =
     (let mask = 2 ^ kMarkerRepBits d - 1;
          marker_index = drop_bit (kMarkerRepBits d) index;
          i = index AND mask
      in do { marker \<leftarrow> vec_at marker_table marker_index;
              marker' \<leftarrow> vec_put marker i True;
              vec_put marker_table marker_index marker' })"

section \<open>Arrays, loops and thread ranges\<close>

type_synonym ArithArray = "real list"

definition arr_zero :: "nat \<Rightarrow> ArithArray" where
  "arr_zero kN = replicate kN 0"

definition arr_add :: "ArithArray \<Rightarrow> ArithArray \<Rightarrow> ArithArray" where
  "arr_add a b = map2 (+) a b"

definition arr_sub :: "ArithArray \<Rightarrow> ArithArray \<Rightarrow> ArithArray" where
  "arr_sub a b = map2 (-) a b"

definition arr_scale :: "real \<Rightarrow> ArithArray \<Rightarrow> ArithArray" where
  "arr_scale k a = map (\<lambda>x. k * x) a"

text \<open>\<^verbatim>\<open>zisc::invert\<close>: the reciprocal. At zero the floating-point result is infinite,
  which no real number models.\<close>

definition invert :: "real \<Rightarrow> real option" where
  "invert x = (if x = 0 then None else Some (1 / x))"

text \<open>\<^verbatim>\<open>zisc::invert\<close> in an arithmetic of \<^verbatim>\<open>Float\<close>: the rounded quotient of one and
  the argument.\<close>

definition finvert :: "Arithmetic \<Rightarrow> real \<Rightarrow> real option" where
  "finvert ar x = (if x = 0 then None else Some (fdiv ar 1 x))"

text \<open>\<^verbatim>\<open>vector::resize\<close>: new entries are value-initialised.\<close>

definition resize :: "nat \<Rightarrow> 'a \<Rightarrow> 'a list \<Rightarrow> 'a list" where
  "resize n v xs = take n xs @ replicate (n - length xs) v"

text \<open>A loop whose body may fail: the first failure ends the run.\<close>

fun for_each :: "('a \<Rightarrow> 's \<Rightarrow> 's option) \<Rightarrow> 'a list \<Rightarrow> 's \<Rightarrow> 's option" where
  "for_each body [] s = Some s"
| "for_each body (x # xs) s = (case body x s of None \<Rightarrow> None | Some s' \<Rightarrow> for_each body xs s')"

text \<open>Modelled from the spec: \<^verbatim>\<open>System::calcThreadRange\<close> is not part of the sources at
  hand. The spec has the work "submitted as data-parallel range jobs (partition a linear
  index range evenly across available threads)": every thread takes
  \<open>num_of_elements div numOfThreads\<close> consecutive indices, the last one also the rest.\<close>

definition calcThreadRange :: "System \<Rightarrow> uint \<Rightarrow> nat \<Rightarrow> Index2d" where
  "calcThreadRange system num_of_elements thread_id =
     (let n = num_of_elements div numOfThreads system;
          begin = n * thread_id
      in (begin, if thread_id + 1 = numOfThreads system then num_of_elements else begin + n))"

section \<open>Parameters\<close>

text \<open>\<^verbatim>\<open>SampleStatistics\<close> is declared outside the sources at hand; the record has the
  accessors that the denoiser calls. \<open>getFactorIndex\<close> maps a channel to the place of
  its first cross product in a pixel's block of \<open>numOfCovarianceFactors\<close> factors.\<close>

record SampleStatistics =
  stat_resolution :: Index2d
  sampleTable :: "ArithArray list"
  sampleSquaredTable :: "ArithArray list"
  covarianceFactorTable :: "real list"
  numOfCovarianceFactors :: uint
  getFactorIndex :: "uint \<Rightarrow> uint"
  histogramTable :: "ArithArray list"
  denoisedSampleTable :: "ArithArray list"

record Parameters =
  resolution :: Index2d
  num_of_samples :: uint
  histogram_bins :: uint
  sample_value_table :: "ArithArray list"
  histogram_table :: "ArithArray list"
  covariance_factor_table :: "ArithArray list"
  denoised_value_table :: "ArithArray list"

text \<open>The constructor leaves the tables empty; the other members are set by \<open>init\<close> or
  \<open>downscaleOf\<close> before they are read.\<close>

definition Parameters_new :: Parameters where
  "Parameters_new = \<lparr>resolution = (0, 0), num_of_samples = 0, histogram_bins = 0,
     sample_value_table = [], histogram_table = [], covariance_factor_table = [],
     denoised_value_table = []\<rparr>"

text \<open>The channel pairs \<open>(si_a, si_b)\<close> with \<open>si_a \<le> si_b\<close> in the order of the two
  nested loops that count \<open>offset\<close>.\<close>

definition factor_pairs :: "nat \<Rightarrow> (nat \<times> nat) list" where
  "factor_pairs kDimension =
     concat (map (\<lambda>si_a. map (\<lambda>si_b. (si_a, si_b)) [si_a..<kDimension]) [0..<kDimension])"

definition numOfFactors :: "nat \<Rightarrow> nat" where
  "numOfFactors kDimension = length (factor_pairs kDimension)"

subsection \<open>downscaleAverage and downscaleOf\<close>

definition downscaleAverage_step ::
  "nat \<Rightarrow> Index2d \<Rightarrow> ArithArray list \<Rightarrow> Index2d \<Rightarrow> uint \<Rightarrow> ArithArray list
     \<Rightarrow> ArithArray list option" where
  "downscaleAverage_step kN high_res high_res_table low_res low_index low_res_table =
     (if fst low_res = 0 then None
      else let low_pixel = (low_index mod fst low_res, low_index div fst low_res)
      in do {
        sum \<leftarrow> for_each (\<lambda>(offset_x, offset_y) sum.
                 let high_pixel = (min (2 * fst low_pixel + offset_x) (usub (fst high_res) 1),
                                   min (2 * snd low_pixel + offset_y) (usub (snd high_res) 1));
                     high_index = fst high_pixel + fst high_res * snd high_pixel
                 in do { v \<leftarrow> vec_at high_res_table high_index; Some (arr_add sum v) })
               [(0, 0), (1, 0), (0, 1), (1, 1)] (arr_zero kN);
        vec_put low_res_table low_index (arr_scale 0.25 sum)
      })"

definition downscaleAverage ::
  "nat \<Rightarrow> Index2d \<Rightarrow> ArithArray list \<Rightarrow> Index2d \<Rightarrow> ArithArray list \<Rightarrow> Index2d
     \<Rightarrow> ArithArray list option" where
  "downscaleAverage kN high_res high_res_table low_res low_res_table rng =
     for_each (downscaleAverage_step kN high_res high_res_table low_res)
       [fst rng..<snd rng] low_res_table"

definition downscale_parameters ::
  "nat \<Rightarrow> System \<Rightarrow> Parameters \<Rightarrow> nat \<Rightarrow> Parameters \<Rightarrow> Parameters option" where
  "downscale_parameters kDimension system high_res_p thread_id p =
     (let rng = calcThreadRange system (fst (resolution p) * snd (resolution p)) thread_id
      in do {
        sample \<leftarrow> downscaleAverage kDimension (resolution high_res_p)
                    (sample_value_table high_res_p) (resolution p) (sample_value_table p) rng;
        histogram \<leftarrow> for_each (\<lambda>b table.
                    let offset = b * (fst (resolution p) * snd (resolution p))
                    in downscaleAverage kDimension (resolution high_res_p)
                         (histogram_table high_res_p) (resolution p) table
                         (offset + fst rng, offset + snd rng))
                  [0..<histogram_bins p] (histogram_table p);
        covariance \<leftarrow> downscaleAverage (numOfFactors kDimension) (resolution high_res_p)
                    (covariance_factor_table high_res_p) (resolution p)
                    (covariance_factor_table p) rng;
        Some (p\<lparr>sample_value_table := sample, histogram_table := histogram,
                 covariance_factor_table := covariance\<rparr>)
      })"

definition downscaleOf ::
  "nat \<Rightarrow> System \<Rightarrow> Parameters \<Rightarrow> Parameters \<Rightarrow> Parameters option" where
  "downscaleOf kDimension system high_res_p p =
     (let res = (drop_bit 1 (fst (resolution high_res_p)), drop_bit 1 (snd (resolution high_res_p)));
          n = fst res * snd res;
          bins = histogram_bins high_res_p;
          p1 = p\<lparr>resolution := res,
                 num_of_samples := num_of_samples high_res_p,
                 histogram_bins := bins,
                 sample_value_table := resize n (arr_zero kDimension) (sample_value_table p),
                 histogram_table := resize (bins * fst res * snd res) (arr_zero kDimension)
                                      (histogram_table p),
                 covariance_factor_table := resize n (arr_zero (numOfFactors kDimension))
                                              (covariance_factor_table p),
                 denoised_value_table := resize n (arr_zero kDimension) (denoised_value_table p)\<rparr>
      in for_each (downscale_parameters kDimension system high_res_p)
           [0..<numOfThreads system] p1)"

subsection \<open>init\<close>

definition init_pixel ::
  "Arithmetic \<Rightarrow> nat \<Rightarrow> SampleStatistics \<Rightarrow> real \<Rightarrow> real \<Rightarrow> uint \<Rightarrow> Parameters
     \<Rightarrow> Parameters option" where
  "init_pixel ar kDimension statistics k k1 pixel_index p =
     do {
       sample_p \<leftarrow> vec_at (sampleTable statistics) pixel_index;
       samples \<leftarrow> vec_put (sample_value_table p) pixel_index
                   (map (\<lambda>si. fmul ar k (sample_p ! si)) [0..<kDimension]);
       sample_squared_p \<leftarrow> vec_at (sampleSquaredTable statistics) pixel_index;
       covariance_factor \<leftarrow> those (map (\<lambda>(si_a, si_b).
           do {
             s \<leftarrow> (if si_a = si_b then Some (sample_squared_p ! si_a)
                  else vec_at (covarianceFactorTable statistics)
                         (numOfCovarianceFactors statistics * pixel_index +
                          (getFactorIndex statistics si_a + usub (usub si_b si_a) 1)));
             Some (fsub ar s (fmul ar (fmul ar k (sample_p ! si_a)) (sample_p ! si_b)))
           }) (factor_pairs kDimension));
       covariances \<leftarrow> vec_put (covariance_factor_table p) pixel_index
                       (map (\<lambda>x. fmul ar x (fmul ar k k1)) covariance_factor);
       Some (p\<lparr>sample_value_table := samples, covariance_factor_table := covariances\<rparr>)
     }"

definition init_histogram ::
  "nat \<Rightarrow> SampleStatistics \<Rightarrow> uint \<Rightarrow> uint \<Rightarrow> Parameters \<Rightarrow> Parameters option" where
  "init_histogram kDimension statistics b pixel_index p =
     (let histogram_offset = b * (fst (resolution p) * snd (resolution p));
          src_index = histogram_bins p * pixel_index + b;
          dst_index = histogram_offset + pixel_index
      in do {
        src \<leftarrow> vec_at (histogramTable statistics) src_index;
        table \<leftarrow> vec_put (histogram_table p) dst_index (map (\<lambda>si. src ! si) [0..<kDimension]);
        Some (p\<lparr>histogram_table := table\<rparr>)
      })"

definition init_parameters ::
  "Arithmetic \<Rightarrow> nat \<Rightarrow> System \<Rightarrow> SampleStatistics \<Rightarrow> nat \<Rightarrow> Parameters
     \<Rightarrow> Parameters option" where
  "init_parameters ar kDimension system statistics thread_id p =
     (let rng = calcThreadRange system (fst (resolution p) * snd (resolution p)) thread_id
      in do {
        k \<leftarrow> finvert ar (fcast ar (num_of_samples p));
        k1 \<leftarrow> finvert ar (fcast ar (usub (num_of_samples p) 1));
        p1 \<leftarrow> for_each (init_pixel ar kDimension statistics k k1) [fst rng..<snd rng] p;
        for_each (\<lambda>b. for_each (init_histogram kDimension statistics b) [fst rng..<snd rng])
          [0..<histogram_bins p] p1
      })"

definition init ::
  "Arithmetic \<Rightarrow> nat \<Rightarrow> System \<Rightarrow> uint \<Rightarrow> uint \<Rightarrow> SampleStatistics \<Rightarrow> Parameters
     \<Rightarrow> Parameters option" where
  "init ar kDimension system cycle bins statistics p =
     (let res = imageResolution system;
          n = fst res * snd res;
          p1 = p\<lparr>resolution := res,
                 num_of_samples := cycle,
                 histogram_bins := bins,
                 sample_value_table := resize n (arr_zero kDimension) (sample_value_table p),
                 histogram_table := resize (bins * fst res * snd res) (arr_zero kDimension)
                                      (histogram_table p),
                 covariance_factor_table := resize n (arr_zero (numOfFactors kDimension))
                                              (covariance_factor_table p),
                 denoised_value_table := resize n (arr_zero kDimension) (denoised_value_table p)\<rparr>
      in for_each (init_parameters ar kDimension system statistics) [0..<numOfThreads system] p1)"

section \<open>Tiles, patches and search windows\<close>

text \<open>Modelled from the spec: the class \<^verbatim>\<open>RenderingTile\<close> is not part of the sources at
  hand. The spec has it as "a rectangular pixel range \<open>[begin, end)\<close> in two dimensions";
  \<open>tile_current t p\<close> is the pixel that \<^verbatim>\<open>current()\<close> returns after \<open>p\<close> calls of
  \<^verbatim>\<open>next()\<close> since \<^verbatim>\<open>reset()\<close>, row by row, and \<open>getIndex\<close> is the place of a pixel in
  that order.\<close>

type_synonym RenderingTile = "Index2d \<times> Index2d"

definition tile_width :: "RenderingTile \<Rightarrow> uint" where
  "tile_width t = usub (fst (snd t)) (fst (fst t))"

definition tile_height :: "RenderingTile \<Rightarrow> uint" where
  "tile_height t = usub (snd (snd t)) (snd (fst t))"

definition numOfPixels :: "RenderingTile \<Rightarrow> uint" where
  "numOfPixels t = tile_width t * tile_height t"

definition tile_current :: "RenderingTile \<Rightarrow> nat \<Rightarrow> Index2d" where
  "tile_current t p = (fst (fst t) + p mod tile_width t, snd (fst t) + p div tile_width t)"

definition getIndex :: "RenderingTile \<Rightarrow> Index2d \<Rightarrow> uint" where
  "getIndex t pixel =
     usub (fst pixel) (fst (fst t)) + tile_width t * usub (snd pixel) (snd (fst t))"

definition makePatch :: "Denoiser \<Rightarrow> Index2d \<Rightarrow> RenderingTile" where
  "makePatch d center_pixel =
     ((usub (fst center_pixel) (patch_radius d), usub (snd center_pixel) (patch_radius d)),
      (fst center_pixel + patch_radius d + 1, snd center_pixel + patch_radius d + 1))"

definition makeSearchWindow :: "Denoiser \<Rightarrow> Index2d \<Rightarrow> Index2d \<Rightarrow> RenderingTile" where
  "makeSearchWindow d res center_pixel =
     ((usub (max (patch_radius d + search_radius d) (fst center_pixel)) (search_radius d),
       usub (max (patch_radius d + search_radius d) (snd center_pixel)) (search_radius d)),
      (min (usub (fst res) (patch_radius d)) (fst center_pixel + search_radius d + 1),
       min (usub (snd res) (patch_radius d)) (snd center_pixel + search_radius d + 1)))"

definition makeChunkTile :: "Denoiser \<Rightarrow> Index2d \<Rightarrow> Index2d \<Rightarrow> Index2d \<Rightarrow> RenderingTile" where
  "makeChunkTile d res chunk_position tile_position =
     (let chunk_size = getChunkSize d;
          begin0 = patch_radius d + chunk_size * fst chunk_position +
                     search_radius d * fst tile_position;
          begin1 = patch_radius d + chunk_size * snd chunk_position +
                     search_radius d * snd tile_position;
          end0 = begin0 + search_radius d;
          end1 = begin1 + search_radius d
      in ((min begin0 (usub (fst res) (patch_radius d)),
           min begin1 (usub (snd res) (patch_radius d))),
          (min end0 (usub (fst res) (patch_radius d)),
           min end1 (usub (snd res) (patch_radius d)))))"

section \<open>Similarity of patches\<close>

text \<open>A \<^verbatim>\<open>SimilarPatchMask\<close> is a bitset of \<open>kMaskSize\<close> bits, all clear at first;
  \<^verbatim>\<open>count\<close> counts the bits that are set.\<close>

type_synonym SimilarPatchMask = "bool list"

definition mask_new :: "Denoiser \<Rightarrow> SimilarPatchMask" where
  "mask_new d = replicate (kMaskSize d) False"

definition mask_count :: "SimilarPatchMask \<Rightarrow> nat" where
  "mask_count similar_mask = length (filter (\<lambda>b. b) similar_mask)"

text \<open>\<open>calcHistogramDistance\<close> returns its sum \<open>distance_sum\<close> together with the new
  value of the counter behind the pointer \<open>num_of_non_both0\<close>. \<^verbatim>\<open>zisc::power<2>\<close> is the
  product of its argument with itself.\<close>

definition calcHistogramDistance ::
  "nat \<Rightarrow> Denoiser \<Rightarrow> ArithArray \<Rightarrow> ArithArray \<Rightarrow> uint \<Rightarrow> real \<times> uint" where
  "calcHistogramDistance kDimension d histogram_lhs histogram_rhs num_of_non_both0 =
     (let ar = arithmetic d
      in fold (\<lambda>si (distance_sum, n).
             let lhs = histogram_lhs ! si; rhs = histogram_rhs ! si
             in if 1 < fadd ar lhs rhs
                then (fadd ar distance_sum
                        (fdiv ar (fmul ar (fsub ar lhs rhs) (fsub ar lhs rhs)) (fadd ar lhs rhs)),
                      n + 1)
                else (distance_sum, n))
           [0..<kDimension] (0, num_of_non_both0))"

text \<open>The pair of the running \<open>histogram_distance\<close> and \<open>num_of_non_both0\<close> is the state
  of the two loops.\<close>

definition calcHistogramPatchDistance ::
  "nat \<Rightarrow> Denoiser \<Rightarrow> Parameters \<Rightarrow> Index2d \<Rightarrow> Index2d \<Rightarrow> real option" where
  "calcHistogramPatchDistance kDimension d parameters center_pixel_lhs center_pixel_rhs =
     (let res = resolution parameters;
          patch_lhs = makePatch d center_pixel_lhs;
          patch_rhs = makePatch d center_pixel_rhs
      in do {
        (histogram_distance, num_of_non_both0) \<leftarrow>
          for_each (\<lambda>b. for_each (\<lambda>p (histogram_distance, num_of_non_both0).
              let histogram_offset = b * fst res * snd res;
                  p_lhs = tile_current patch_lhs p;
                  p_rhs = tile_current patch_rhs p;
                  index_lhs = fst p_lhs + fst res * snd p_lhs;
                  index_rhs = fst p_rhs + fst res * snd p_rhs
              in do {
                histogram_lhs \<leftarrow> vec_at (histogram_table parameters) (histogram_offset + index_lhs);
                histogram_rhs \<leftarrow> vec_at (histogram_table parameters) (histogram_offset + index_rhs);
                let (distance_sum, n) = calcHistogramDistance kDimension d histogram_lhs
                                          histogram_rhs num_of_non_both0
                in Some (fadd (arithmetic d) histogram_distance distance_sum, n)
              }) [0..<getNumOfPatchPixels d])
            [0..<histogram_bins parameters] (0, 0);
        if 0 < num_of_non_both0
        then Some (fdiv (arithmetic d) histogram_distance (fcast (arithmetic d) num_of_non_both0))
        else None
      })"

definition selectSimilarPatches ::
  "nat \<Rightarrow> Denoiser \<Rightarrow> Parameters \<Rightarrow> Index2d \<Rightarrow> SimilarPatchMask option" where
  "selectSimilarPatches kDimension d parameters main_pixel =
     (let search_window = makeSearchWindow d (resolution parameters) main_pixel
      in if numOfPixels search_window < kMaskSize d
         then for_each (\<lambda>p similar_mask.
                let neighbor_pixel = tile_current search_window p
                in do {
                  dist \<leftarrow> (if neighbor_pixel \<noteq> main_pixel
                           then calcHistogramPatchDistance kDimension d parameters main_pixel
                                  neighbor_pixel
                           else Some 0);
                  if dist \<le> histogram_distance_threshold d
                  then vec_put similar_mask (getIndex search_window neighbor_pixel) True
                  else Some similar_mask
                }) [0..<numOfPixels search_window] (mask_new d)
         else None)"

section \<open>Empirical statistics over the similar patches\<close>

type_synonym Matrix = "real list list"

definition mat_add :: "Matrix \<Rightarrow> Matrix \<Rightarrow> Matrix" where
  "mat_add a b = map2 arr_add a b"

definition mat_sub :: "Matrix \<Rightarrow> Matrix \<Rightarrow> Matrix" where
  "mat_sub a b = map2 arr_sub a b"

definition mat_vec :: "Matrix \<Rightarrow> ArithArray \<Rightarrow> ArithArray" where
  "mat_vec m v = map (\<lambda>row. sum_list (map2 (*) row v)) m"

definition mat_set :: "Matrix \<Rightarrow> nat \<Rightarrow> nat \<Rightarrow> real \<Rightarrow> Matrix" where
  "mat_set m i j v = m[i := (m ! i)[j := v]]"

definition toMatrix :: "nat \<Rightarrow> ArithArray \<Rightarrow> Matrix" where
  "toMatrix kDimension factors =
     fold (\<lambda>((si_a, si_b), f) matrix. mat_set (mat_set matrix si_a si_b f) si_b si_a f)
       (zip (factor_pairs kDimension) factors)
       (replicate kDimension (replicate kDimension 0))"

text \<open>The pixel that a neighbour of the search window stands for at a patch offset, and
  its place in a table of the scale.\<close>

definition offset_index :: "Denoiser \<Rightarrow> Index2d \<Rightarrow> Index2d \<Rightarrow> Index2d \<Rightarrow> uint" where
  "offset_index d res pixel patch_offset =
     (let src_pixel = (usub (fst pixel + fst patch_offset) (patch_radius d),
                       usub (snd pixel + snd patch_offset) (patch_radius d))
      in fst src_pixel + fst res * snd src_pixel)"

text \<open>\<^verbatim>\<open>similar_mask.count() - 1\<close> is computed in \<^verbatim>\<open>size_t\<close>.\<close>

definition size_pred :: "nat \<Rightarrow> nat" where
  "size_pred n = (if n = 0 then 18446744073709551615 else n - 1)"

definition calcEmpiricalMean ::
  "nat \<Rightarrow> Denoiser \<Rightarrow> Index2d \<Rightarrow> RenderingTile \<Rightarrow> Index2d \<Rightarrow> SimilarPatchMask
     \<Rightarrow> ArithArray list \<Rightarrow> ArithArray option" where
  "calcEmpiricalMean kN d res search_window patch_offset similar_mask table =
     do {
       mean \<leftarrow> for_each (\<lambda>p mean.
           let neighbor_pixel = tile_current search_window p
           in do {
             similar \<leftarrow> vec_at similar_mask (getIndex search_window neighbor_pixel);
             if similar
             then do { v \<leftarrow> vec_at table (offset_index d res neighbor_pixel patch_offset);
                       Some (arr_add mean v) }
             else Some mean
           })
         [0..<numOfPixels search_window] (arr_zero kN);
       k \<leftarrow> invert (real (mask_count similar_mask));
       Some (arr_scale k mean)
     }"

definition calcEmpiricalCovarianceMatrix ::
  "nat \<Rightarrow> Denoiser \<Rightarrow> Index2d \<Rightarrow> RenderingTile \<Rightarrow> Index2d \<Rightarrow> SimilarPatchMask
     \<Rightarrow> ArithArray list \<Rightarrow> ArithArray \<Rightarrow> ArithArray option" where
  "calcEmpiricalCovarianceMatrix kDimension d res search_window patch_offset similar_mask
     value_table value_mean =
     do {
       mean \<leftarrow> for_each (\<lambda>p mean.
           let neighbor_pixel = tile_current search_window p
           in do {
             similar \<leftarrow> vec_at similar_mask (getIndex search_window neighbor_pixel);
             if similar
             then do {
               v \<leftarrow> vec_at value_table (offset_index d res neighbor_pixel patch_offset);
               let diff = arr_sub v value_mean
               in Some (arr_add mean
                    (map (\<lambda>(si_a, si_b). diff ! si_a * diff ! si_b) (factor_pairs kDimension)))
             }
             else Some mean
           })
         [0..<numOfPixels search_window] (arr_zero (numOfFactors kDimension));
       k \<leftarrow> invert (real (size_pred (mask_count similar_mask)));
       Some (arr_scale k mean)
     }"

definition calcStagingDenoisedValue ::
  "Denoiser \<Rightarrow> Index2d \<Rightarrow> RenderingTile \<Rightarrow> Index2d \<Rightarrow> SimilarPatchMask \<Rightarrow> ArithArray
     \<Rightarrow> Matrix \<Rightarrow> Matrix \<Rightarrow> ArithArray list \<Rightarrow> ArithArray list \<Rightarrow> ArithArray list option" where
  "calcStagingDenoisedValue d res search_window patch_offset similar_mask expected_mean
     covariance_mean expected_covariance value_table staging_value_table =
     (let inv_expected_covariance = inverseMatrix d expected_covariance
      in for_each (\<lambda>p staging.
           let neighbor_pixel = tile_current search_window p
           in do {
             similar \<leftarrow> vec_at similar_mask (getIndex search_window neighbor_pixel);
             if similar
             then let index = offset_index d res neighbor_pixel patch_offset
                  in do {
                    x \<leftarrow> vec_at value_table index;
                    let tmp = mat_vec inv_expected_covariance (arr_sub x expected_mean)
                    in vec_put staging index (arr_sub x (mat_vec covariance_mean tmp))
                  }
             else Some staging
           })
         [0..<numOfPixels search_window] staging_value_table)"

section \<open>Denoising the patches around a pixel\<close>

text \<open>The buffers that one scale's pass works on.\<close>

record Work =
  parameters :: Parameters
  staging_value_table :: "ArithArray list"
  estimates_counter :: "int list"
  pixel_marker :: PixelMarker

definition patch_offset_of :: "Denoiser \<Rightarrow> nat \<Rightarrow> Index2d" where
  "patch_offset_of d patch_number =
     (patch_number mod (2 * patch_radius d + 1), patch_number div (2 * patch_radius d + 1))"

text \<open>The body of the loop over the patch offsets in \<^verbatim>\<open>denoiseOnlyMainPatch\<close>.\<close>

definition denoiseOnlyMainPatch_offset ::
  "nat \<Rightarrow> Denoiser \<Rightarrow> Index2d \<Rightarrow> RenderingTile \<Rightarrow> Index2d \<Rightarrow> SimilarPatchMask \<Rightarrow> nat
     \<Rightarrow> Work \<Rightarrow> Work option" where
  "denoiseOnlyMainPatch_offset kDimension d res search_window main_pixel similar_mask
     patch_number w =
     (let patch_offset = patch_offset_of d patch_number
      in do {
        estimated_value \<leftarrow> for_each (\<lambda>p estimated_value.
            let neighbor_pixel = tile_current search_window p
            in do {
              similar \<leftarrow> vec_at similar_mask (getIndex search_window neighbor_pixel);
              if similar
              then do {
                v \<leftarrow> vec_at (sample_value_table (parameters w))
                       (offset_index d res neighbor_pixel patch_offset);
                Some (arr_add estimated_value v) }
              else Some estimated_value
            })
          [0..<numOfPixels search_window] (arr_zero kDimension);
        k \<leftarrow> invert (real (mask_count similar_mask));
        let dst_index = offset_index d res main_pixel patch_offset
        in do {
          target \<leftarrow> vec_at (denoised_value_table (parameters w)) dst_index;
          denoised \<leftarrow> vec_put (denoised_value_table (parameters w)) dst_index
                        (arr_add target (arr_scale k estimated_value));
          count \<leftarrow> vec_at (estimates_counter w) dst_index;
          counter \<leftarrow> vec_put (estimates_counter w) dst_index (count + 1);
          Some (w\<lparr>parameters := (parameters w)\<lparr>denoised_value_table := denoised\<rparr>,
                   estimates_counter := counter\<rparr>)
        }
      })"

definition denoiseOnlyMainPatch ::
  "nat \<Rightarrow> Denoiser \<Rightarrow> Index2d \<Rightarrow> SimilarPatchMask \<Rightarrow> Work \<Rightarrow> Work option" where
  "denoiseOnlyMainPatch kDimension d main_pixel similar_mask w =
     (let res = resolution (parameters w);
          search_window = makeSearchWindow d res main_pixel
      in for_each
           (denoiseOnlyMainPatch_offset kDimension d res search_window main_pixel similar_mask)
           [0..<getNumOfPatchPixels d] w)"

text \<open>The last loop of \<^verbatim>\<open>denoiseSelectedPatches\<close>, over the search window: the staged
  value of every similar neighbour is added to its denoised value.\<close>

definition accumulate_staged_pixel ::
  "Denoiser \<Rightarrow> Index2d \<Rightarrow> RenderingTile \<Rightarrow> Index2d \<Rightarrow> SimilarPatchMask \<Rightarrow> nat
     \<Rightarrow> Work \<Rightarrow> Work option" where
  "accumulate_staged_pixel d res search_window patch_offset similar_mask p w =
     (let neighbor_pixel = tile_current search_window p
      in do {
        similar \<leftarrow> vec_at similar_mask (getIndex search_window neighbor_pixel);
        if similar
        then let index = offset_index d res neighbor_pixel patch_offset
             in do {
               staging_value \<leftarrow> vec_at (staging_value_table w) index;
               target \<leftarrow> vec_at (denoised_value_table (parameters w)) index;
               denoised \<leftarrow> vec_put (denoised_value_table (parameters w)) index
                             (arr_add target staging_value);
               count \<leftarrow> vec_at (estimates_counter w) index;
               counter \<leftarrow> vec_put (estimates_counter w) index (count + 1);
               marker \<leftarrow> (if patch_offset = (patch_radius d, patch_radius d)
                          then mark d (pixel_marker w) index
                          else Some (pixel_marker w));
               Some (w\<lparr>parameters := (parameters w)\<lparr>denoised_value_table := denoised\<rparr>,
                        estimates_counter := counter, pixel_marker := marker\<rparr>)
             }
        else Some w
      })"

definition accumulate_staged ::
  "Denoiser \<Rightarrow> Index2d \<Rightarrow> RenderingTile \<Rightarrow> Index2d \<Rightarrow> SimilarPatchMask \<Rightarrow> Work \<Rightarrow> Work option" where
  "accumulate_staged d res search_window patch_offset similar_mask w =
     for_each (accumulate_staged_pixel d res search_window patch_offset similar_mask)
       [0..<numOfPixels search_window] w"

text \<open>The body of the loop over the patch offsets in \<^verbatim>\<open>denoiseSelectedPatches\<close>: the
  two estimation steps and the accumulation of the staged values.\<close>

definition denoiseSelectedPatches_offset ::
  "nat \<Rightarrow> Denoiser \<Rightarrow> Index2d \<Rightarrow> RenderingTile \<Rightarrow> SimilarPatchMask \<Rightarrow> nat
     \<Rightarrow> Work \<Rightarrow> Work option" where
  "denoiseSelectedPatches_offset kDimension d res search_window similar_mask patch_number w =
     (let patch_offset = patch_offset_of d patch_number
      in do {
        covariance_factors \<leftarrow> calcEmpiricalMean (numOfFactors kDimension) d res
          search_window patch_offset similar_mask (covariance_factor_table (parameters w));
        let covariance_mean = toMatrix kDimension covariance_factors
        in do {
          expected_mean \<leftarrow> calcEmpiricalMean kDimension d res search_window patch_offset
            similar_mask (sample_value_table (parameters w));
          factors \<leftarrow> calcEmpiricalCovarianceMatrix kDimension d res search_window
            patch_offset similar_mask (sample_value_table (parameters w)) expected_mean;
          let expected_covariance =
                mat_add covariance_mean (mat_sub (toMatrix kDimension factors) covariance_mean)
          in do {
            staging1 \<leftarrow> calcStagingDenoisedValue d res search_window patch_offset
              similar_mask expected_mean covariance_mean expected_covariance
              (sample_value_table (parameters w)) (staging_value_table w);
            expected_mean2 \<leftarrow> calcEmpiricalMean kDimension d res search_window
              patch_offset similar_mask staging1;
            factors2 \<leftarrow> calcEmpiricalCovarianceMatrix kDimension d res search_window
              patch_offset similar_mask staging1 expected_mean2;
            staging2 \<leftarrow> calcStagingDenoisedValue d res search_window patch_offset
              similar_mask expected_mean2 covariance_mean
              (mat_add (toMatrix kDimension factors2) covariance_mean)
              (sample_value_table (parameters w)) staging1;
            accumulate_staged d res search_window patch_offset similar_mask
              (w\<lparr>staging_value_table := staging2\<rparr>)
          }
        }
      })"

definition denoiseSelectedPatches ::
  "nat \<Rightarrow> Denoiser \<Rightarrow> Index2d \<Rightarrow> SimilarPatchMask \<Rightarrow> Work \<Rightarrow> Work option" where
  "denoiseSelectedPatches kDimension d main_pixel similar_mask w =
     (let res = resolution (parameters w);
          search_window = makeSearchWindow d res main_pixel
      in for_each
           (denoiseSelectedPatches_offset kDimension d res search_window similar_mask)
           [0..<getNumOfPatchPixels d] w)"

definition denoisePixels :: "nat \<Rightarrow> Denoiser \<Rightarrow> Index2d \<Rightarrow> Work \<Rightarrow> Work option" where
  "denoisePixels kDimension d main_pixel w =
     do {
       similar_mask \<leftarrow> selectSimilarPatches kDimension d (parameters w) main_pixel;
       let num_of_similar_patches = mask_count similar_mask
       in if num_of_similar_patches \<le> getPatchDimension kDimension d
          then denoiseOnlyMainPatch kDimension d main_pixel similar_mask w
          else denoiseSelectedPatches kDimension d main_pixel similar_mask w
     }"

section \<open>The pass over one scale\<close>

definition denoise_chunk_pixel ::
  "nat \<Rightarrow> Denoiser \<Rightarrow> Index2d \<Rightarrow> RenderingTile \<Rightarrow> nat \<Rightarrow> Work \<Rightarrow> Work option" where
  "denoise_chunk_pixel kDimension d res chunk_tile p w =
     (let current_pixel = tile_current chunk_tile p;
          pixel_index = fst current_pixel + fst res * snd current_pixel
      in do {
        marked \<leftarrow> isMarked d (pixel_marker w) pixel_index;
        if \<not> marked then denoisePixels kDimension d current_pixel w else Some w
      })"

definition denoise_chunk :: "nat \<Rightarrow> Denoiser \<Rightarrow> Index2d \<Rightarrow> Index2d \<Rightarrow> nat \<Rightarrow> Work \<Rightarrow> Work option" where
  "denoise_chunk kDimension d chunk_resolution tile_position chunk_number w =
     (if fst chunk_resolution = 0 then None
      else let res = resolution (parameters w);
               chunk_position = (chunk_number mod fst chunk_resolution,
                                 chunk_number div fst chunk_resolution);
               chunk_tile = makeChunkTile d res chunk_position tile_position
      in for_each (denoise_chunk_pixel kDimension d res chunk_tile)
           [0..<numOfPixels chunk_tile] w)"

definition denoiseChunk :: "nat \<Rightarrow> Denoiser \<Rightarrow> Index2d \<Rightarrow> Index2d \<Rightarrow> Work \<Rightarrow> Work option" where
  "denoiseChunk kDimension d chunk_resolution tile_position w =
     for_each (denoise_chunk kDimension d chunk_resolution tile_position)
       [0..<fst chunk_resolution * snd chunk_resolution] w"

definition aggregate_pixel :: "int list \<Rightarrow> uint \<Rightarrow> Parameters \<Rightarrow> Parameters option" where
  "aggregate_pixel counter pixel_index p =
     do {
       count \<leftarrow> vec_at counter pixel_index;
       if 0 < count
       then do {
         target \<leftarrow> vec_at (denoised_value_table p) pixel_index;
         k \<leftarrow> invert (real_of_int count);
         denoised \<leftarrow> vec_put (denoised_value_table p) pixel_index (arr_scale k target);
         Some (p\<lparr>denoised_value_table := denoised\<rparr>)
       }
       else None
     }"

definition aggregate_values ::
  "System \<Rightarrow> int list \<Rightarrow> nat \<Rightarrow> Parameters \<Rightarrow> Parameters option" where
  "aggregate_values system counter thread_id p =
     (let rng = calcThreadRange system (fst (resolution p) * snd (resolution p)) thread_id
      in for_each (aggregate_pixel counter) [fst rng..<snd rng] p)"

definition aggregate :: "System \<Rightarrow> int list \<Rightarrow> Parameters \<Rightarrow> Parameters option" where
  "aggregate system counter p =
     for_each (aggregate_values system counter) [0..<numOfThreads system] p"

definition aggregateFinal_values ::
  "nat \<Rightarrow> System \<Rightarrow> Parameters \<Rightarrow> nat \<Rightarrow> SampleStatistics \<Rightarrow> SampleStatistics option" where
  "aggregateFinal_values kDimension system p thread_id statistics0 =
     (let res = resolution p;
          rng = calcThreadRange system (fst res * snd res) thread_id
      in for_each (\<lambda>pixel_index statistics.
           let pixel = (pixel_index mod fst res, pixel_index div fst res)
           in do {
             src \<leftarrow> vec_at (denoised_value_table p) pixel_index;
             let dst_index = fst pixel + fst (stat_resolution statistics) * snd pixel
             in do {
               table \<leftarrow> vec_put (denoisedSampleTable statistics) dst_index
                          (map (\<lambda>si. src ! si) [0..<kDimension]);
               Some (statistics\<lparr>denoisedSampleTable := table\<rparr>)
             }
           })
         [fst rng..<snd rng] statistics0)"

definition aggregateFinal ::
  "nat \<Rightarrow> System \<Rightarrow> Parameters \<Rightarrow> SampleStatistics \<Rightarrow> SampleStatistics option" where
  "aggregateFinal kDimension system p statistics =
     for_each (aggregateFinal_values kDimension system p) [0..<numOfThreads system] statistics"

section \<open>denoiseMultiscale\<close>

text \<open>The local variables of \<^verbatim>\<open>denoiseMultiscale\<close>: the pyramid, the buffers shared by all
  scales, and the pointer \<open>parameters\<close>, which is null (\<open>None\<close>) until the loop over the
  scales sets it to an entry of the pyramid.\<close>

record Multiscale =
  multiscale_parameters :: "Parameters list"
  staging :: "ArithArray list"
  counter :: "int list"
  marker :: PixelMarker
  parameters_ptr :: "nat option"

definition build_pyramid ::
  "nat \<Rightarrow> Denoiser \<Rightarrow> System \<Rightarrow> uint \<Rightarrow> SampleStatistics \<Rightarrow> Parameters list option" where
  "build_pyramid kDimension d system cycle statistics =
     (let ms0 = replicate (num_of_scales d) Parameters_new
      in do {
        first \<leftarrow> vec_at ms0 0;
        p0 \<leftarrow> init (arithmetic d) kDimension system cycle (histogramBins d) statistics first;
        for_each (\<lambda>scale ms.
            do {
              high_res_p \<leftarrow> vec_at ms (scale - 1);
              this \<leftarrow> vec_at ms scale;
              low_res_p \<leftarrow> downscaleOf kDimension system high_res_p this;
              vec_put ms scale low_res_p
            })
          [1..<num_of_scales d] (ms0[0 := p0])
      })"

text \<open>The tiles of one scale, in the fixed order: all chunks at the first tile position,
  then all chunks at the second, and so on.\<close>

definition denoise_tiles :: "nat \<Rightarrow> Denoiser \<Rightarrow> Work \<Rightarrow> Work option" where
  "denoise_tiles kDimension d w =
     do {
       chunk_resolution \<leftarrow> getChunkResolution d (resolution (parameters w));
       for_each (\<lambda>tile_position. denoiseChunk kDimension d chunk_resolution tile_position)
         (getChunkTileOrder d) w
     }"

text \<open>One iteration of the loop over the scales, up to the \<^verbatim>\<open>break\<close>.\<close>

definition scale_iteration ::
  "nat \<Rightarrow> Denoiser \<Rightarrow> System \<Rightarrow> nat \<Rightarrow> Multiscale \<Rightarrow> Multiscale option" where
  "scale_iteration kDimension d system iteration m =
     (let cleared = map (\<lambda>c. 0) (counter m);
          marker0 = clear (marker m);
          scale = usub (num_of_scales d) (iteration + 1)
      in do {
        p \<leftarrow> vec_at (multiscale_parameters m) scale;
        w \<leftarrow> denoise_tiles kDimension d
               \<lparr>parameters = p, staging_value_table = staging m,
                estimates_counter = cleared, pixel_marker = marker0\<rparr>;
        p' \<leftarrow> aggregate system (estimates_counter w) (parameters w);
        Some (m\<lparr>multiscale_parameters := (multiscale_parameters m)[scale := p'],
                 staging := staging_value_table w, counter := estimates_counter w,
                 marker := pixel_marker w, parameters_ptr := Some scale\<rparr>)
      })"

text \<open>The loop over the scales. Its body ends with an unconditional \<^verbatim>\<open>break\<close>, so the
  loop leaves after the iteration it enters.\<close>

definition scale_loop ::
  "nat \<Rightarrow> Denoiser \<Rightarrow> System \<Rightarrow> nat \<Rightarrow> Multiscale \<Rightarrow> Multiscale option" where
  "scale_loop kDimension d system iteration m =
     (if iteration < num_of_scales d
      then scale_iteration kDimension d system iteration m
      else Some m)"

definition denoiseMultiscale ::
  "nat \<Rightarrow> Denoiser \<Rightarrow> System \<Rightarrow> uint \<Rightarrow> SampleStatistics \<Rightarrow> SampleStatistics option" where
  "denoiseMultiscale kDimension d system cycle statistics =
     do {
       ms \<leftarrow> build_pyramid kDimension d system cycle statistics;
       first \<leftarrow> vec_at ms 0;
       m \<leftarrow> scale_loop kDimension d system 0
              \<lparr>multiscale_parameters = ms,
               staging = replicate (length (sample_value_table first)) (arr_zero kDimension),
               counter = replicate (length (sample_value_table first)) 0,
               marker = PixelMarker d system,
               parameters_ptr = None\<rparr>;
       scale \<leftarrow> parameters_ptr m;
       p \<leftarrow> vec_at (multiscale_parameters m) scale;
       aggregateFinal kDimension system p statistics
     }"

definition denoise :: "Denoiser \<Rightarrow> System \<Rightarrow> uint \<Rightarrow> SampleStatistics \<Rightarrow> SampleStatistics option" where
  "denoise d system cycle statistics =
     (if colorMode system = kRgb
      then denoiseMultiscale 3 d system cycle statistics
      else denoiseMultiscale (spectraSize system) d system cycle statistics)"

section \<open>Notions for the statements\<close>

text \<open>The pixels of a tile in the order of the traversal, those of a search window that a
  mask marks, and the sum of a list of arrays.\<close>

definition window_pixels :: "RenderingTile \<Rightarrow> Index2d list" where
  "window_pixels search_window = map (tile_current search_window) [0..<numOfPixels search_window]"

definition similar_pixels :: "RenderingTile \<Rightarrow> SimilarPatchMask \<Rightarrow> Index2d list" where
  "similar_pixels search_window similar_mask =
     filter (\<lambda>q. similar_mask ! getIndex search_window q) (window_pixels search_window)"

definition arr_sum :: "nat \<Rightarrow> ArithArray list \<Rightarrow> ArithArray" where
  "arr_sum kN vs = foldl arr_add (arr_zero kN) vs"

text \<open>The distance that \<open>selectSimilarPatches\<close> compares with the threshold: zero for
  the main pixel itself, the histogram distance of the two patches otherwise.\<close>

definition patch_distance :: "nat \<Rightarrow> Denoiser \<Rightarrow> Parameters \<Rightarrow> Index2d \<Rightarrow> Index2d \<Rightarrow> real option" where
  "patch_distance N d p mp q =
     (if q \<noteq> mp then calcHistogramPatchDistance N d p mp q else Some 0)"

text \<open>The pass over one scale of the pyramid as the specification describes it, from the
  pyramid to the write-back: the buffers are cleared, the tiles of the scale are denoised,
  the estimates are aggregated, and \<open>aggregateFinal\<close> writes the result into the
  statistics.\<close>

definition denoiseScale ::
  "nat \<Rightarrow> Denoiser \<Rightarrow> System \<Rightarrow> uint \<Rightarrow> SampleStatistics \<Rightarrow> nat \<Rightarrow> SampleStatistics option" where
  "denoiseScale kDimension d system cycle statistics scale =
     do {
       ms \<leftarrow> build_pyramid kDimension d system cycle statistics;
       first \<leftarrow> vec_at ms 0;
       p \<leftarrow> vec_at ms scale;
       w \<leftarrow> denoise_tiles kDimension d
              \<lparr>parameters = p,
               staging_value_table = replicate (length (sample_value_table first)) (arr_zero kDimension),
               estimates_counter = replicate (length (sample_value_table first)) 0,
               pixel_marker = clear (PixelMarker d system)\<rparr>;
       p' \<leftarrow> aggregate system (estimates_counter w) (parameters w);
       aggregateFinal kDimension system p' statistics
     }"

text \<open>Every marked pixel has been counted: its estimates counter is at least one. The
  counters are never negative.\<close>

definition marked_counted :: "Denoiser \<Rightarrow> Work \<Rightarrow> bool" where
  "marked_counted d w \<longleftrightarrow>
     (\<forall>i. isMarked d (pixel_marker w) i = Some True \<longrightarrow>
          i < length (estimates_counter w) \<and> 1 \<le> estimates_counter w ! i) \<and>
     (\<forall>i < length (estimates_counter w). 0 \<le> estimates_counter w ! i)"

text \<open>Notions for the coverage of the pass. A pixel is inset when it lies at least
  \<open>patchRadius\<close> from every border; it is covered when the counter of every pixel of its
  patch is at least one. The invariant of the pass: the resolution stays, no counter is
  negative, and every marked inset pixel is covered. The counters only grow, and the tables keep their
  lengths.\<close>

definition inset :: "Denoiser \<Rightarrow> Index2d \<Rightarrow> Index2d \<Rightarrow> bool" where
  "inset d res q \<longleftrightarrow>
     patch_radius d \<le> fst q \<and> fst q + patch_radius d < fst res \<and>
     patch_radius d \<le> snd q \<and> snd q + patch_radius d < snd res"





text \<open>The sum of squares or of cross products that \<open>init\<close> reads for a pair of channels
  \<open>si_a \<le> si_b\<close> of a pixel, and the statistics of a pixel as sums over its samples.\<close>

definition cross_sum :: "SampleStatistics \<Rightarrow> uint \<Rightarrow> nat \<Rightarrow> nat \<Rightarrow> real" where
  "cross_sum statistics pixel_index si_a si_b =
     (if si_a = si_b then sampleSquaredTable statistics ! pixel_index ! si_a
      else covarianceFactorTable statistics !
             (numOfCovarianceFactors statistics * pixel_index +
              (getFactorIndex statistics si_a + (si_b - si_a - 1))))"

definition accumulated :: "nat \<Rightarrow> SampleStatistics \<Rightarrow> uint \<Rightarrow> ArithArray list \<Rightarrow> bool" where
  "accumulated kDimension statistics pixel_index samples \<longleftrightarrow>
     list_all (\<lambda>si. sampleTable statistics ! pixel_index ! si = sum_list (map (\<lambda>x. x ! si) samples))
       [0..<kDimension] \<and>
     list_all (\<lambda>(si_a, si_b). cross_sum statistics pixel_index si_a si_b =
                  sum_list (map (\<lambda>x. x ! si_a * x ! si_b) samples))
       (factor_pairs kDimension)"

text \<open>What \<open>init\<close> computes for a channel from the accumulated sum \<open>s\<close>, and for a pair
  of channels from the accumulated square or cross product \<open>s_ab\<close> and the accumulated
  sums \<open>s_a\<close> and \<open>s_b\<close>, in the order of the operations of the source.\<close>

definition init_expected_value :: "Arithmetic \<Rightarrow> uint \<Rightarrow> real \<Rightarrow> real" where
  "init_expected_value ar n s = fmul ar (fdiv ar 1 (fcast ar n)) s"

definition init_covariance_factor :: "Arithmetic \<Rightarrow> uint \<Rightarrow> real \<Rightarrow> real \<Rightarrow> real \<Rightarrow> real" where
  "init_covariance_factor ar n s_ab s_a s_b =
     (let k = fdiv ar 1 (fcast ar n);
          k1 = fdiv ar 1 (fcast ar (usub n 1))
      in fmul ar (fsub ar s_ab (fmul ar (fmul ar k s_a) s_b)) (fmul ar k k1))"

text \<open>The progress of \<open>init\<close>: a pixel is done when its expected value and its covariance
  factors are written, a histogram entry when bin \<open>b\<close> of the pixel is copied, and a run of
  a part of \<open>init\<close> keeps what is done.\<close>

definition pixel_done :: "Arithmetic \<Rightarrow> nat \<Rightarrow> SampleStatistics \<Rightarrow> Parameters \<Rightarrow> uint \<Rightarrow> bool" where
  "pixel_done ar kDimension statistics p j \<longleftrightarrow>
     j < length (sample_value_table p) \<and> j < length (covariance_factor_table p) \<and>
     sample_value_table p ! j =
       map (\<lambda>si. init_expected_value ar (num_of_samples p) (sampleTable statistics ! j ! si))
         [0..<kDimension] \<and>
     covariance_factor_table p ! j =
       map (\<lambda>(si_a, si_b). init_covariance_factor ar (num_of_samples p)
                 (cross_sum statistics j si_a si_b)
                 (sampleTable statistics ! j ! si_a) (sampleTable statistics ! j ! si_b))
         (factor_pairs kDimension)"

definition histogram_done :: "nat \<Rightarrow> SampleStatistics \<Rightarrow> Parameters \<Rightarrow> uint \<Rightarrow> uint \<Rightarrow> bool" where
  "histogram_done kDimension statistics p b j \<longleftrightarrow>
     b * (fst (resolution p) * snd (resolution p)) + j < length (histogram_table p) \<and>
     histogram_table p ! (b * (fst (resolution p) * snd (resolution p)) + j) =
       map (\<lambda>si. histogramTable statistics ! (histogram_bins p * j + b) ! si) [0..<kDimension]"

definition histogram_ready :: "nat \<Rightarrow> SampleStatistics \<Rightarrow> Parameters \<Rightarrow> uint \<Rightarrow> uint \<Rightarrow> bool" where
  "histogram_ready kDimension statistics p b j \<longleftrightarrow>
     j < fst (resolution p) * snd (resolution p) \<and> histogram_done kDimension statistics p b j"

definition init_progress ::
  "Arithmetic \<Rightarrow> nat \<Rightarrow> SampleStatistics \<Rightarrow> Parameters \<Rightarrow> Parameters \<Rightarrow> bool" where
  "init_progress ar kDimension statistics p p' \<longleftrightarrow>
     resolution p' = resolution p \<and> num_of_samples p' = num_of_samples p \<and>
     histogram_bins p' = histogram_bins p \<and>
     (\<forall>j. pixel_done ar kDimension statistics p j \<longrightarrow> pixel_done ar kDimension statistics p' j) \<and>
     (\<forall>b j. j < fst (resolution p) * snd (resolution p) \<longrightarrow>
        histogram_done kDimension statistics p b j \<longrightarrow> histogram_done kDimension statistics p' b j)"
section \<open>Example inputs\<close>

text \<open>A denoiser with search radius 4, as in the partitioning scenario of the
  specification; the patch radius is the argument.\<close>

definition ex_denoiser32 :: "uint \<Rightarrow> Denoiser" where
  "ex_denoiser32 pr = \<lparr>histogramBins = 8, histogram_distance_threshold = 0,
     patch_radius = pr, search_radius = 4, num_of_scales = 1,
     kMarkerRepBits = 6, kMaskSize = 128, getChunkTileOrder = [],
     inverseMatrix = (\<lambda>m. m), arithmetic = exact_arithmetic\<rparr>"

definition ex_system10 :: System where
  "ex_system10 = \<lparr>imageResolution = (10, 10), numOfThreads = 1, colorMode = kRgb,
     spectraSize = 3\<rparr>"

text \<open>A \<open>2 \<times> 2\<close> scale with one channel and two histogram bins.\<close>

definition ex_system2 :: System where
  "ex_system2 = \<lparr>imageResolution = (2, 2), numOfThreads = 1, colorMode = kRgb,
     spectraSize = 3\<rparr>"

definition ex_high_res :: Parameters where
  "ex_high_res = \<lparr>resolution = (2, 2), num_of_samples = 4, histogram_bins = 2,
     sample_value_table = [[1], [2], [3], [4]],
     histogram_table = [[10], [20], [30], [40], [100], [200], [300], [400]],
     covariance_factor_table = [[0], [0], [0], [0]],
     denoised_value_table = [[0], [0], [0], [0]]\<rparr>"

text \<open>A \<open>4 \<times> 4\<close> image with one channel and one histogram bin, two samples per pixel,
  patch radius 1 and search radius 1. The nine tile positions are taken row by row; the
  matrix inverse is the reciprocal of the entry of a \<open>1 \<times> 1\<close> matrix.\<close>

definition ex_tiles :: "Index2d list" where
  "ex_tiles = [(0, 0), (1, 0), (2, 0), (0, 1), (1, 1), (2, 1), (0, 2), (1, 2), (2, 2)]"

definition ex_inverse :: "Matrix \<Rightarrow> Matrix" where
  "ex_inverse m = map (map (\<lambda>x. 1 / x)) m"

definition ex_denoiserA :: Denoiser where
  "ex_denoiserA = \<lparr>histogramBins = 1, histogram_distance_threshold = 1 / 10,
     patch_radius = 1, search_radius = 1, num_of_scales = 1,
     kMarkerRepBits = 3, kMaskSize = 16, getChunkTileOrder = ex_tiles,
     inverseMatrix = ex_inverse, arithmetic = exact_arithmetic\<rparr>"



text \<open>The finest scale that \<open>init\<close> builds from these statistics, and the buffers at the
  start of the pass over it.\<close>

definition ex_parametersA :: Parameters where
  "ex_parametersA = \<lparr>resolution = (4, 4), num_of_samples = 2, histogram_bins = 1,
     sample_value_table = [[0], [1], [2], [3], [4], [5], [6], [7],
                           [8], [9], [10], [11], [12], [13], [14], [15]],
     histogram_table = [[2], [2], [2], [2], [2], [2], [2], [2],
                        [2], [3], [2], [2], [2], [2], [2], [5]],
     covariance_factor_table = replicate 16 [0],
     denoised_value_table = replicate 16 [0]\<rparr>"

definition ex_workA :: Work where
  "ex_workA = \<lparr>parameters = ex_parametersA, staging_value_table = replicate 16 [0],
     estimates_counter = replicate 16 0,
     pixel_marker = replicate 2 (replicate 8 False)\<rparr>"

text \<open>The mask of the pixel \<open>(1, 1)\<close>: of the four pixels of its search window all but
  the last are similar.\<close>

definition ex_maskA :: SimilarPatchMask where
  "ex_maskA = [True, True, True, False] @ replicate 12 False"






text \<open>A \<open>4 \<times> 2\<close> image with one channel, one histogram bin and two samples per pixel,
  denoised with two scales, patch radius 0 and search radius 1: the coarser scale is
  \<open>2 \<times> 1\<close>. The eight pixels fill one marker of eight bits. The threshold is zero
  and the histograms differ, so that a pixel is similar to itself only.\<close>

definition ex_denoiserB :: Denoiser where
  "ex_denoiserB = \<lparr>histogramBins = 1, histogram_distance_threshold = 0,
     patch_radius = 0, search_radius = 1, num_of_scales = 2,
     kMarkerRepBits = 3, kMaskSize = 16, getChunkTileOrder = ex_tiles,
     inverseMatrix = ex_inverse, arithmetic = exact_arithmetic\<rparr>"

definition ex_systemB :: System where
  "ex_systemB = \<lparr>imageResolution = (4, 2), numOfThreads = 1, colorMode = kSpectra,
     spectraSize = 1\<rparr>"

definition ex_statisticsB :: SampleStatistics where
  "ex_statisticsB = \<lparr>stat_resolution = (4, 2),
     sampleTable = [[2], [4], [6], [8], [10], [12], [14], [16]],
     sampleSquaredTable = [[4], [10], [20], [34], [52], [74], [100], [130]],
     covarianceFactorTable = [], numOfCovarianceFactors = 0, getFactorIndex = (\<lambda>si. 0),
     histogramTable = [[2], [4], [6], [8], [10], [12], [14], [16]],
     denoisedSampleTable = replicate 8 [0]\<rparr>"

text \<open>The \<open>4 \<times> 2\<close> image with one scale and threshold one: every pixel is similar to
  its neighbours in the row, more patches than the patch dimension of one, so that
  \<open>denoiseSelectedPatches\<close> runs and marks pixels. \<open>ex_parametersC\<close> is the scale that
  \<open>init\<close> builds, \<open>ex_workC\<close> has the buffers at the start of the pass, \<open>ex_workC1\<close>
  at its end.\<close>

definition ex_denoiserC :: Denoiser where
  "ex_denoiserC = ex_denoiserB\<lparr>histogram_distance_threshold := 1, num_of_scales := 1\<rparr>"

definition ex_parametersC :: Parameters where
  "ex_parametersC = \<lparr>resolution = (4, 2), num_of_samples = 2, histogram_bins = 1,
     sample_value_table = [[1], [2], [3], [4], [5], [6], [7], [8]],
     histogram_table = [[2], [4], [6], [8], [10], [12], [14], [16]],
     covariance_factor_table = replicate 8 [1],
     denoised_value_table = replicate 8 [0]\<rparr>"

definition ex_workC :: Work where
  "ex_workC = \<lparr>parameters = ex_parametersC, staging_value_table = replicate 8 [0],
     estimates_counter = map (\<lambda>c. 0) (replicate 8 (0 :: int)),
     pixel_marker = clear (PixelMarker ex_denoiserC ex_systemB)\<rparr>"

definition ex_workC1 :: Work where
  "ex_workC1 = \<lparr>parameters = ex_parametersC\<lparr>denoised_value_table :=
       [[4 / 3], [5 / 3], [10 / 3], [11 / 3], [16 / 3], [17 / 3], [22 / 3], [23 / 3]]\<rparr>,
     staging_value_table =
       [[4 / 3], [5 / 3], [10 / 3], [11 / 3], [16 / 3], [17 / 3], [22 / 3], [23 / 3]],
     estimates_counter = [1, 1, 1, 1, 1, 1, 1, 1],
     pixel_marker = [[True, True, True, True, True, True, True, True]]\<rparr>"

text \<open>A \<open>2 \<times> 1\<close> image with two channels, two histogram bins and two samples per pixel:
  the samples of the first pixel are \<open>(1, 2)\<close> and \<open>(3, 1)\<close>, those of the second
  \<open>(0, 0)\<close> and \<open>(2, 2)\<close>. \<open>ex_parametersE\<close> is the scale that \<open>init\<close> builds.\<close>

definition ex_systemE :: System where
  "ex_systemE = \<lparr>imageResolution = (2, 1), numOfThreads = 2, colorMode = kSpectra,
     spectraSize = 2\<rparr>"

definition ex_statisticsE :: SampleStatistics where
  "ex_statisticsE = \<lparr>stat_resolution = (2, 1),
     sampleTable = [[4, 3], [2, 2]],
     sampleSquaredTable = [[10, 5], [4, 4]],
     covarianceFactorTable = [5, 4], numOfCovarianceFactors = 1, getFactorIndex = (\<lambda>si. 0),
     histogramTable = [[1, 2], [3, 4], [5, 6], [7, 8]],
     denoisedSampleTable = replicate 2 [0, 0]\<rparr>"

definition ex_parametersE :: Parameters where
  "ex_parametersE = \<lparr>resolution = (2, 1), num_of_samples = 2, histogram_bins = 2,
     sample_value_table = [[2, 3 / 2], [1, 1]],
     histogram_table = [[1, 2], [5, 6], [3, 4], [7, 8]],
     covariance_factor_table = [[1, - 1 / 2, 1 / 4], [1, 1, 1]],
     denoised_value_table = [[0, 0], [0, 0]]\<rparr>"

text \<open>One pixel with one channel and 75 samples, all of value 7: the accumulated sum is
  \<open>75 * 7 = 525\<close> and the accumulated square is \<open>75 * 49 = 3675\<close>, both without
  rounding. \<open>ex_parameters75\<close> is the scale that \<open>init\<close> builds in the arithmetic of
  \<^verbatim>\<open>double\<close>.\<close>

definition ex_system1 :: System where
  "ex_system1 = \<lparr>imageResolution = (1, 1), numOfThreads = 1, colorMode = kSpectra,
     spectraSize = 1\<rparr>"

definition ex_statistics75 :: SampleStatistics where
  "ex_statistics75 = \<lparr>stat_resolution = (1, 1),
     sampleTable = [[525]], sampleSquaredTable = [[3675]],
     covarianceFactorTable = [], numOfCovarianceFactors = 0, getFactorIndex = (\<lambda>si. 0),
     histogramTable = [[75]], denoisedSampleTable = [[0]]\<rparr>"

definition ex_parameters75 :: Parameters where
  "ex_parameters75 = \<lparr>resolution = (1, 1), num_of_samples = 75, histogram_bins = 1,
     sample_value_table = [[7 + 1 / 2 ^ 50]],
     histogram_table = [[75]],
     covariance_factor_table = [[- (6647475341877317 / 2 ^ 106)]],
     denoised_value_table = [[0]]\<rparr>"

text \<open>A \<open>2 \<times> 1\<close> scale with three channels and one histogram bin, patch radius 0 and
  threshold 6, in the arithmetic of \<^verbatim>\<open>double\<close>. The histogram distance of the two pixels
  is \<open>(64 / 8 + 100 / 12 + 25 / 15) / 3\<close>, which is 6 without rounding and
  \<open>6 + 2\<^sup>-\<^sup>5\<^sup>0\<close> with it: in the mask \<open>ex_maskF\<close> of the first pixel the bit of the second
  one is clear.\<close>

definition ex_denoiserF :: Denoiser where
  "ex_denoiserF = \<lparr>histogramBins = 1, histogram_distance_threshold = 6,
     patch_radius = 0, search_radius = 1, num_of_scales = 1,
     kMarkerRepBits = 3, kMaskSize = 16, getChunkTileOrder = ex_tiles,
     inverseMatrix = ex_inverse, arithmetic = ieee_arithmetic 53\<rparr>"

definition ex_parametersF :: Parameters where
  "ex_parametersF = \<lparr>resolution = (2, 1), num_of_samples = 2, histogram_bins = 1,
     sample_value_table = [[0, 0, 0], [0, 0, 0]],
     histogram_table = [[0, 1, 5], [8, 11, 10]],
     covariance_factor_table = replicate 2 (replicate 6 0),
     denoised_value_table = replicate 2 [0, 0, 0]\<rparr>"

definition ex_maskF :: SimilarPatchMask where
  "ex_maskF = True # replicate 15 False"
section \<open>Properties\<close>

subsection \<open>Chunk partitioning\<close>

lemma usub_le [simp]: "b \<le> a \<Longrightarrow> usub a b = a - b"
  by (simp add: usub_def)

lemma umul_small: "a * b < 4294967296 \<Longrightarrow> umul a b = a * b"
proof -
  assume "a * b < 4294967296"
  then have "int (a * b) < 4294967296" by linarith
  then have m: "int (a * b) mod 4294967296 = int (a * b)" by (intro mod_pos_pos_trivial) simp_all
  have e: "int a * int b = int (a * b)" by simp
  show ?thesis unfolding umul_def e m by (rule nat_int)
qed

text \<open>C8, as stated, fails: with resolution \<open>32 \<times> 32\<close>, search radius 4 and patch
  radius 4 (a valid configuration, the patch radius does not exceed the search radius)
  the chunk grid is \<open>(2, 2)\<close>, not \<open>(3, 3)\<close>: the patch radius is taken off both
  borders before the division by the chunk size.\<close>

theorem C8_chunk_grid_counterexample:
  "patch_radius (ex_denoiser32 4) \<le> search_radius (ex_denoiser32 4) \<and>
   getChunkSize (ex_denoiser32 4) = 12 \<and>
   getChunkResolution (ex_denoiser32 4) (32, 32) = Some (2, 2) \<and>
   getChunkResolution (ex_denoiser32 4) (32, 32) \<noteq> Some (3, 3)"
  by (simp add: ex_denoiser32_def getChunkResolution_def getChunkSize_def umul_def)

text \<open>C8, amended: the chunk size is three times the search radius when that product fits
  in 32 bits, and for resolution \<open>32 \<times> 32\<close> and search radius 4 the chunk grid counts
  the chunks of side 12 that cover \<open>32 - 2 * patchRadius\<close> pixels per axis: \<open>(3, 3)\<close> for
  a patch radius of at most 3 and \<open>(2, 2)\<close> for patch radius 4.\<close>

theorem C8_chunk_grid:
  "(3 * search_radius d < 2 ^ 32 \<longrightarrow> getChunkSize d = 3 * search_radius d) \<and>
   (search_radius d = 4 \<and> patch_radius d \<le> 4 \<longrightarrow>
      getChunkSize d = 12 \<and>
      getChunkResolution d (32, 32) =
        Some (if patch_radius d \<le> 3 then (3, 3) else (2, 2)))"
proof -
  have "getChunkResolution d (32, 32) = Some (if patch_radius d \<le> 3 then (3, 3) else (2, 2))"
    if sr: "search_radius d = 4" and pr: "patch_radius d \<le> 4"
  proof -
    from pr have "patch_radius d \<in> {0, 1, 2, 3, 4}" by auto
    then show ?thesis
      using sr by (auto simp: getChunkResolution_def getChunkSize_def umul_def)
  qed
  then show ?thesis by (simp add: getChunkSize_def umul_small)
qed

theorem C8_chunk_grid_witness:
  "3 * search_radius (ex_denoiser32 2) < 2 ^ 32 \<and>
   search_radius (ex_denoiser32 2) = 4 \<and> patch_radius (ex_denoiser32 2) \<le> 4 \<and>
   getChunkSize (ex_denoiser32 2) = 3 * search_radius (ex_denoiser32 2) \<and>
   getChunkSize (ex_denoiser32 2) = 12 \<and>
   getChunkResolution (ex_denoiser32 2) (32, 32) = Some (3, 3)"
  using C8_chunk_grid [of "ex_denoiser32 2"] by (simp add: ex_denoiser32_def)

subsection \<open>PixelMarker\<close>

text \<open>C10: the constructor allocates \<open>(w * h) >> kMarkerRepBits\<close> marker words, rounding
  down, so the pixels of the last, partial word have no marker. For a \<open>10 \<times> 10\<close> image and
  64-bit markers one word is allocated, and \<open>isMarked\<close> and \<open>mark\<close> at pixel index 64
  (below \<open>w * h = 100\<close>) access word 1, outside the table.\<close>

theorem C10_marker_table_too_short:
  "length (PixelMarker (ex_denoiser32 1) ex_system10) = 1 \<and>
   (64::nat) < 10 * 10 \<and>
   drop_bit (kMarkerRepBits (ex_denoiser32 1)) (64::nat) = 1 \<and>
   isMarked (ex_denoiser32 1) (PixelMarker (ex_denoiser32 1) ex_system10) 64 = None \<and>
   mark (ex_denoiser32 1) (PixelMarker (ex_denoiser32 1) ex_system10) 64 = None"
  by (simp add: ex_denoiser32_def ex_system10_def PixelMarker_def isMarked_def mark_def
      vec_at_def drop_bit_eq_div)

subsection \<open>downscaleOf\<close>

text \<open>C3: the histogram table of the low-resolution scale is not the box average of the
  same bin. \<open>downscaleOf\<close> passes the range \<open>[offset + begin, offset + end)\<close> of bin \<open>b\<close>
  to \<open>downscaleAverage\<close>, which takes the whole index for a pixel index: the row
  \<open>low_index div width\<close> lies below the image and is clamped to the last row of bin 0.
  For the \<open>2 \<times> 2\<close> scale \<open>ex_high_res\<close> bin 1 of the only low-resolution pixel is
  \<open>(30 + 40 + 30 + 40) / 4 = 35\<close>, the average of the last row of bin 0, where the box
  average of bin 1 is \<open>(100 + 200 + 300 + 400) / 4 = 250\<close>.\<close>

theorem C3_histogram_bins_mixed:
  "map_option histogram_table (downscaleOf 1 ex_system2 ex_high_res Parameters_new)
     = Some [[25], [35]]"
  by code_simp

subsection \<open>Loops and checked accesses\<close>

lemma for_each_append:
  "for_each body (xs @ ys) s = (case for_each body xs s of None \<Rightarrow> None | Some s' \<Rightarrow> for_each body ys s')"
  by (induction xs arbitrary: s) (auto split: option.splits)

lemma for_each_rule:
  assumes "for_each body xs s = Some s'"
    and "P [] s"
    and "\<And>ys x zs t t'. xs = ys @ x # zs \<Longrightarrow> P ys t \<Longrightarrow> body x t = Some t' \<Longrightarrow> P (ys @ [x]) t'"
  shows "P xs s'"
  using assms
proof (induction xs arbitrary: s' rule: rev_induct)
  case Nil
  then show ?case by simp
next
  case (snoc x xs)
  from snoc.prems(1) obtain t where t: "for_each body xs s = Some t" and b: "body x t = Some s'"
    by (auto simp: for_each_append split: option.splits)
  have "P xs t"
  proof (rule snoc.IH [OF t snoc.prems(2)])
    fix ys y zs u u'
    assume "xs = ys @ y # zs" "P ys u" "body y u = Some u'"
    then show "P (ys @ [y]) u'"
      using snoc.prems(3) [of ys y "zs @ [x]" u u'] by simp
  qed
  then show ?case using snoc.prems(3) [of xs x "[]" t s'] b by simp
qed

lemma for_each_invariant:
  assumes "for_each body xs s = Some s'" and "I s"
    and "\<And>x t t'. x \<in> set xs \<Longrightarrow> I t \<Longrightarrow> body x t = Some t' \<Longrightarrow> I t'"
  shows "I s'"
  using assms
proof (induction xs arbitrary: s)
  case Nil
  then show ?case by simp
next
  case (Cons x xs)
  from Cons.prems(1) obtain t where t: "body x s = Some t" and r: "for_each body xs t = Some s'"
    by (auto split: option.splits)
  have "I t" using Cons.prems(3) [of x s t] Cons.prems(2) t by simp
  then show ?case using Cons.IH [OF r] Cons.prems(3) by (meson list.set_intros(2))
qed

lemma bind_eq_Some_conv':
  "(Option.bind m f = Some y) = (\<exists>x. m = Some x \<and> f x = Some y)"
  by (cases m) auto

lemma vec_at_Some [simp]: "vec_at xs i = Some v \<longleftrightarrow> i < length xs \<and> v = xs ! i"
  by (auto simp: vec_at_def)

lemma vec_put_Some [simp]: "vec_put xs i v = Some ys \<longleftrightarrow> i < length xs \<and> ys = xs[i := v]"
  by (auto simp: vec_put_def)

lemma invert_Some [simp]: "invert x = Some k \<longleftrightarrow> x \<noteq> 0 \<and> k = 1 / x"
  by (auto simp: invert_def)


lemma masked_sum_loop:
  assumes "for_each (\<lambda>p acc. do {
               similar \<leftarrow> vec_at sm (getIndex sw (tile_current sw p));
               if similar then do { v \<leftarrow> vec_at tab (f (tile_current sw p)); Some (arr_add acc v) }
               else Some acc }) ps acc0 = Some acc"
  shows "acc = foldl arr_add acc0
                 (map (\<lambda>q. tab ! f q) (filter (\<lambda>q. sm ! getIndex sw q) (map (tile_current sw) ps)))"
  using assms
proof (induction ps arbitrary: acc0)
  case Nil
  then show ?case by simp
next
  case (Cons p ps)
  then show ?case
    by (auto simp: bind_eq_Some_conv' split: option.splits if_splits)
qed

subsection \<open>Pixel indices\<close>

lemma usub_minus: "b \<le> a \<Longrightarrow> usub a b = a - b"
  by (simp add: usub_def)





subsection \<open>Loops that cover and thread ranges\<close>

lemma for_each_cover:
  assumes run: "for_each body xs s = Some s'"
    and inv: "J s"
    and step: "\<And>x t t'. x \<in> set xs \<Longrightarrow> J t \<Longrightarrow> body x t = Some t' \<Longrightarrow> J t' \<and> M t t' \<and> C x t'"
    and refl: "\<And>t. M t t"
    and trans: "\<And>t u v. M t u \<Longrightarrow> M u v \<Longrightarrow> M t v"
    and keep: "\<And>x t t'. C x t \<Longrightarrow> M t t' \<Longrightarrow> C x t'"
  shows "J s' \<and> M s s' \<and> (\<forall>x \<in> set xs. C x s')"
proof -
  let ?P = "\<lambda>ys t. J t \<and> M s t \<and> (\<forall>x \<in> set ys. C x t)"
  have "?P xs s'"
  proof (rule for_each_rule [OF run, where P = ?P])
    show "?P [] s" using inv refl by simp
  next
    fix ys x zs t t'
    assume xs: "xs = ys @ x # zs" and P: "?P ys t" and b: "body x t = Some t'"
    have "x \<in> set xs" using xs by simp
    from step [OF this _ b] P have s: "J t'" "M t t'" "C x t'" by simp_all
    have "M s t'" using P s(2) trans by blast
    moreover have "\<forall>y \<in> set (ys @ [x]). C y t'" using P s keep by auto
    ultimately show "?P (ys @ [x]) t'" using s(1) by simp
  qed
  then show ?thesis .
qed


lemma calcThreadRange_cover:
  assumes "1 \<le> numOfThreads system" "j < n"
  shows "\<exists>t < numOfThreads system.
           fst (calcThreadRange system n t) \<le> j \<and> j < snd (calcThreadRange system n t)"
proof -
  let ?T = "numOfThreads system"
  let ?k = "n div ?T"
  show ?thesis
  proof (cases "j div ?k < ?T - 1 \<and> 0 < ?k")
    case True
    have "j = ?k * (j div ?k) + j mod ?k" by simp
    moreover have "j mod ?k < ?k" using True by simp
    ultimately have "?k * (j div ?k) \<le> j" "j < ?k * (j div ?k) + ?k"
      by linarith+
    then show ?thesis using True
      by (intro exI [of _ "j div ?k"]) (auto simp: calcThreadRange_def Let_def)
  next
    case False
    have "?k * (?T - 1) \<le> j"
    proof (cases "0 < ?k")
      case True
      with False have "?T - 1 \<le> j div ?k" by simp
      then have "?k * (?T - 1) \<le> ?k * (j div ?k)" by (rule mult_le_mono2)
      also have "\<dots> \<le> j" by simp
      finally show ?thesis .
    next
      case False
      then show ?thesis by simp
    qed
    then show ?thesis using assms
      by (intro exI [of _ "?T - 1"]) (auto simp: calcThreadRange_def Let_def)
  qed
qed

lemma calcThreadRange_bound:
  assumes "t < numOfThreads system"
  shows "snd (calcThreadRange system n t) \<le> n"
proof -
  let ?T = "numOfThreads system"
  have "n div ?T * Suc t \<le> n div ?T * ?T" using assms by (intro mult_le_mono2) simp
  also have "\<dots> \<le> n" by simp
  finally show ?thesis by (simp add: calcThreadRange_def Let_def)
qed


subsection \<open>The choice between the two estimators and the fallback\<close>

lemma denoiseOnlyMainPatch_offset_Some:
  assumes "denoiseOnlyMainPatch_offset N d res sw mp sm pn w = Some w'"
  shows "mask_count sm \<noteq> 0 \<and>
         offset_index d res mp (patch_offset_of d pn) < length (denoised_value_table (parameters w)) \<and>
         offset_index d res mp (patch_offset_of d pn) < length (estimates_counter w) \<and>
         w' = w\<lparr>parameters := (parameters w)\<lparr>denoised_value_table :=
                  (denoised_value_table (parameters w))[offset_index d res mp (patch_offset_of d pn) :=
                     arr_add (denoised_value_table (parameters w) ! offset_index d res mp (patch_offset_of d pn))
                       (arr_scale (1 / real (mask_count sm))
                          (arr_sum N (map (\<lambda>q. sample_value_table (parameters w) !
                                                  offset_index d res q (patch_offset_of d pn))
                                           (similar_pixels sw sm))))]\<rparr>,
               estimates_counter := (estimates_counter w)[offset_index d res mp (patch_offset_of d pn) :=
                   estimates_counter w ! offset_index d res mp (patch_offset_of d pn) + 1]\<rparr>"
proof -
  from assms obtain est where
    est: "for_each (\<lambda>p acc. do {
               similar \<leftarrow> vec_at sm (getIndex sw (tile_current sw p));
               if similar then do { v \<leftarrow> vec_at (sample_value_table (parameters w))
                     (offset_index d res (tile_current sw p) (patch_offset_of d pn)); Some (arr_add acc v) }
               else Some acc }) [0..<numOfPixels sw] (arr_zero N) = Some est"
    and rest: "mask_count sm \<noteq> 0"
      "offset_index d res mp (patch_offset_of d pn) < length (denoised_value_table (parameters w))"
      "offset_index d res mp (patch_offset_of d pn) < length (estimates_counter w)"
      "w' = w\<lparr>parameters := (parameters w)\<lparr>denoised_value_table :=
                  (denoised_value_table (parameters w))[offset_index d res mp (patch_offset_of d pn) :=
                     arr_add (denoised_value_table (parameters w) ! offset_index d res mp (patch_offset_of d pn))
                       (arr_scale (1 / real (mask_count sm)) est)]\<rparr>,
               estimates_counter := (estimates_counter w)[offset_index d res mp (patch_offset_of d pn) :=
                   estimates_counter w ! offset_index d res mp (patch_offset_of d pn) + 1]\<rparr>"
    by (auto simp: denoiseOnlyMainPatch_offset_def Let_def bind_eq_Some_conv')
  from masked_sum_loop [OF est] have "est = arr_sum N (map (\<lambda>q. sample_value_table (parameters w) !
       offset_index d res q (patch_offset_of d pn)) (similar_pixels sw sm))"
    by (simp add: arr_sum_def similar_pixels_def window_pixels_def)
  with rest show ?thesis by simp
qed


lemma mod_div_pair:
  fixes L :: nat
  assumes "x < L"
  shows "(x + L * y) mod L = x \<and> (x + L * y) div L = y"
  using assms by simp








subsection \<open>The similarity mask\<close>

lemma upt_split:
  assumes "[a..<b] = ys @ x # zs"
  shows "ys = [a..<x] \<and> a \<le> x \<and> x < b"
proof -
  have len: "length ys + Suc (length zs) = b - a"
    using arg_cong [OF assms, of length] by simp
  then have lt: "length ys < b - a" by simp
  have "x = [a..<b] ! length ys" using assms by simp
  then have x: "x = a + length ys" using lt by simp
  have "ys = take (length ys) [a..<b]" using assms by simp
  also have "\<dots> = [a..<a + length ys]" using lt by (simp add: take_upt)
  finally show ?thesis using x lt by simp
qed

lemma tile_index_current:
  assumes "p < numOfPixels t"
  shows "getIndex t (tile_current t p) = p"
proof -
  have "0 < tile_width t" using assms by (cases "tile_width t = 0") (simp_all add: numOfPixels_def)
  then show ?thesis
    by (simp add: getIndex_def tile_current_def usub_def)
qed

lemma tile_current_mem:
  assumes "fst (fst t) \<le> x" "x < fst (snd t)" "snd (fst t) \<le> y" "y < snd (snd t)"
  shows "\<exists>p < numOfPixels t. tile_current t p = (x, y)"
proof -
  let ?w = "tile_width t"
  have w: "?w = fst (snd t) - fst (fst t)" and h: "tile_height t = snd (snd t) - snd (fst t)"
    using assms by (simp_all add: tile_width_def tile_height_def usub_def)
  let ?p = "(x - fst (fst t)) + ?w * (y - snd (fst t))"
  have xw: "x - fst (fst t) < ?w" using assms w by simp
  have "?p < ?w + ?w * (y - snd (fst t))" using xw by simp
  also have "\<dots> = ?w * Suc (y - snd (fst t))" by simp
  also have "\<dots> \<le> ?w * tile_height t"
    using assms h by (intro mult_le_mono2) simp
  finally have "?p < numOfPixels t" by (simp add: numOfPixels_def)
  moreover have "tile_current t ?p = (x, y)"
  proof -
    have md: "?p mod ?w = x - fst (fst t)" "?p div ?w = y - snd (fst t)"
      using mod_div_pair [OF xw, of "y - snd (fst t)"] by blast+
    have "tile_current t ?p = (fst (fst t) + (x - fst (fst t)), snd (fst t) + (y - snd (fst t)))"
      by (simp only: tile_current_def md)
    then show ?thesis using assms by simp
  qed
  ultimately show ?thesis by blast
qed

lemma window_contains_main:
  assumes "patch_radius d \<le> fst mp" "fst mp + patch_radius d < fst res"
    and "patch_radius d \<le> snd mp" "snd mp + patch_radius d < snd res"
  shows "\<exists>p < numOfPixels (makeSearchWindow d res mp). tile_current (makeSearchWindow d res mp) p = mp"
proof -
  have "\<exists>p < numOfPixels (makeSearchWindow d res mp).
          tile_current (makeSearchWindow d res mp) p = (fst mp, snd mp)"
    using assms by (intro tile_current_mem) (auto simp: makeSearchWindow_def usub_def)
  then show ?thesis by simp
qed

lemma selectSimilarPatches_mask:
  assumes run: "selectSimilarPatches N d p mp = Some sm"
  defines "sw \<equiv> makeSearchWindow d (resolution p) mp"
  shows "numOfPixels sw < kMaskSize d \<and> length sm = kMaskSize d \<and>
         (\<forall>i < numOfPixels sw. \<exists>dd. patch_distance N d p mp (tile_current sw i) = Some dd \<and>
              (sm ! i \<longleftrightarrow> dd \<le> histogram_distance_threshold d)) \<and>
         (\<forall>i. numOfPixels sw \<le> i \<longrightarrow> i < kMaskSize d \<longrightarrow> \<not> sm ! i)"
proof -
  let ?n = "numOfPixels sw"
  let ?thr = "histogram_distance_threshold d"
  let ?body = "\<lambda>i similar_mask.
       let neighbor_pixel = tile_current sw i
       in do {
         dist \<leftarrow> (if neighbor_pixel \<noteq> mp
                  then calcHistogramPatchDistance N d p mp neighbor_pixel
                  else Some 0);
         if dist \<le> ?thr
         then vec_put similar_mask (getIndex sw neighbor_pixel) True
         else Some similar_mask
       }"
  from run have small: "?n < kMaskSize d"
    and loop: "for_each ?body [0..<?n] (mask_new d) = Some sm"
    unfolding selectSimilarPatches_def Let_def sw_def by (simp_all split: if_splits)
  let ?P = "\<lambda>ys t. length t = kMaskSize d \<and>
       (\<forall>i \<in> set ys. \<exists>dd. patch_distance N d p mp (tile_current sw i) = Some dd \<and>
              (t ! i \<longleftrightarrow> dd \<le> ?thr)) \<and>
       (\<forall>i. i \<notin> set ys \<longrightarrow> i < kMaskSize d \<longrightarrow> \<not> t ! i)"
  have "?P [0..<?n] sm"
  proof (rule for_each_rule [OF loop, where P = ?P])
    show "?P [] (mask_new d)" by (simp add: mask_new_def)
  next
    fix ys x zs t t'
    assume split: "[0..<?n] = ys @ x # zs" and P: "?P ys t" and b: "?body x t = Some t'"
    from upt_split [OF split] have ys: "ys = [0..<x]" and xn: "x < ?n" by simp_all
    have gi: "getIndex sw (tile_current sw x) = x" using xn by (rule tile_index_current)
    from b obtain dd where dd: "patch_distance N d p mp (tile_current sw x) = Some dd"
      and t': "t' = (if dd \<le> ?thr then t[x := True] else t)"
      by (auto simp: Let_def patch_distance_def gi bind_eq_Some_conv' split: if_splits)
    have xlen: "x < length t" using xn small P by simp
    have notx: "\<not> t ! x" using P ys xn small by simp
    show "?P (ys @ [x]) t'"
    proof (intro conjI ballI allI impI)
      show "length t' = kMaskSize d" using t' P by simp
    next
      fix i assume i: "i \<in> set (ys @ [x])"
      show "\<exists>dd. patch_distance N d p mp (tile_current sw i) = Some dd \<and> (t' ! i \<longleftrightarrow> dd \<le> ?thr)"
      proof (cases "i = x")
        case True
        then show ?thesis using dd t' xlen notx by auto
      next
        case False
        then have "i \<in> set ys" using i by simp
        with P obtain e where "patch_distance N d p mp (tile_current sw i) = Some e"
           "t ! i \<longleftrightarrow> e \<le> ?thr" by blast
        then show ?thesis using t' False by auto
      qed
    next
      fix i assume "i \<notin> set (ys @ [x])" "i < kMaskSize d"
      then have "i \<notin> set ys" "i \<noteq> x" by simp_all
      then show "\<not> t' ! i" using P t' \<open>i < kMaskSize d\<close> by auto
    qed
  qed
  then show ?thesis using small by simp
qed

text \<open>C6: for a main pixel at least \<open>patchRadius\<close> from each border and a threshold that
  is not negative, the mask that \<open>selectSimilarPatches\<close> returns has the bit of a pixel of
  the search window set if and only if its distance (zero for the main pixel itself, the
  patch histogram distance to the main pixel's patch otherwise) is at most the threshold;
  the main pixel lies in its search window and its bit is set. The distance is the value
  that \<open>calcHistogramPatchDistance\<close> returns in the arithmetic of the denoiser, whatever
  its rounding.\<close>

theorem C6_similar_mask:
  "selectSimilarPatches N d p mp = Some sm \<and>
   patch_radius d \<le> fst mp \<and> fst mp + patch_radius d < fst (resolution p) \<and>
   patch_radius d \<le> snd mp \<and> snd mp + patch_radius d < snd (resolution p) \<and>
   0 \<le> histogram_distance_threshold d \<longrightarrow>
     (\<forall>q \<in> set (window_pixels (makeSearchWindow d (resolution p) mp)).
        \<exists>dd. patch_distance N d p mp q = Some dd \<and>
          (sm ! getIndex (makeSearchWindow d (resolution p) mp) q
             \<longleftrightarrow> dd \<le> histogram_distance_threshold d)) \<and>
     mp \<in> set (window_pixels (makeSearchWindow d (resolution p) mp)) \<and>
     sm ! getIndex (makeSearchWindow d (resolution p) mp) mp"
proof (intro impI)
  let ?sw = "makeSearchWindow d (resolution p) mp"
  assume "selectSimilarPatches N d p mp = Some sm \<and>
   patch_radius d \<le> fst mp \<and> fst mp + patch_radius d < fst (resolution p) \<and>
   patch_radius d \<le> snd mp \<and> snd mp + patch_radius d < snd (resolution p) \<and>
   0 \<le> histogram_distance_threshold d"
  then have run: "selectSimilarPatches N d p mp = Some sm"
    and inset: "patch_radius d \<le> fst mp" "fst mp + patch_radius d < fst (resolution p)"
      "patch_radius d \<le> snd mp" "snd mp + patch_radius d < snd (resolution p)"
    and thr: "0 \<le> histogram_distance_threshold d" by simp_all
  from selectSimilarPatches_mask [OF run]
  have m: "\<forall>i < numOfPixels ?sw. \<exists>dd. patch_distance N d p mp (tile_current ?sw i) = Some dd \<and>
              (sm ! i \<longleftrightarrow> dd \<le> histogram_distance_threshold d)" by simp
  have all: "\<forall>q \<in> set (window_pixels ?sw).
        \<exists>dd. patch_distance N d p mp q = Some dd \<and>
          (sm ! getIndex ?sw q \<longleftrightarrow> dd \<le> histogram_distance_threshold d)"
  proof
    fix q assume "q \<in> set (window_pixels ?sw)"
    then obtain i where i: "i < numOfPixels ?sw" "q = tile_current ?sw i"
      by (auto simp: window_pixels_def)
    then show "\<exists>dd. patch_distance N d p mp q = Some dd \<and>
          (sm ! getIndex ?sw q \<longleftrightarrow> dd \<le> histogram_distance_threshold d)"
      using m tile_index_current [of i ?sw] by simp
  qed
  from window_contains_main [OF inset] obtain i where
    i: "i < numOfPixels ?sw" "tile_current ?sw i = mp" by blast
  then have mem: "mp \<in> set (window_pixels ?sw)" by (force simp: window_pixels_def)
  from all mem obtain dd where "patch_distance N d p mp mp = Some dd"
    "sm ! getIndex ?sw mp \<longleftrightarrow> dd \<le> histogram_distance_threshold d" by blast
  then have "sm ! getIndex ?sw mp" using thr by (simp add: patch_distance_def)
  with all mem show "(\<forall>q \<in> set (window_pixels ?sw).
        \<exists>dd. patch_distance N d p mp q = Some dd \<and>
          (sm ! getIndex ?sw q \<longleftrightarrow> dd \<le> histogram_distance_threshold d)) \<and>
     mp \<in> set (window_pixels ?sw) \<and> sm ! getIndex ?sw mp" by simp
qed

theorem C6_similar_mask_witness:
  "selectSimilarPatches 1 ex_denoiserA ex_parametersA (1, 1) = Some ex_maskA \<and>
   patch_radius ex_denoiserA \<le> fst (1 :: nat, 1 :: nat) \<and>
   fst (1 :: nat, 1 :: nat) + patch_radius ex_denoiserA < fst (resolution ex_parametersA) \<and>
   patch_radius ex_denoiserA \<le> snd (1 :: nat, 1 :: nat) \<and>
   snd (1 :: nat, 1 :: nat) + patch_radius ex_denoiserA < snd (resolution ex_parametersA) \<and>
   0 \<le> histogram_distance_threshold ex_denoiserA \<and>
   window_pixels (makeSearchWindow ex_denoiserA (resolution ex_parametersA) (1, 1))
     = [(1, 1), (2, 1), (1, 2), (2, 2)] \<and>
   (\<exists>dd. patch_distance 1 ex_denoiserA ex_parametersA (1, 1) (2, 2) = Some dd \<and>
          (ex_maskA ! getIndex (makeSearchWindow ex_denoiserA (resolution ex_parametersA) (1, 1)) (2, 2)
             \<longleftrightarrow> dd \<le> histogram_distance_threshold ex_denoiserA)) \<and>
   ex_maskA ! getIndex (makeSearchWindow ex_denoiserA (resolution ex_parametersA) (1, 1)) (1, 1) \<and>
   selectSimilarPatches 3 ex_denoiserF ex_parametersF (0, 0) = Some ex_maskF \<and>
   patch_radius ex_denoiserF \<le> fst (0 :: nat, 0 :: nat) \<and>
   fst (0 :: nat, 0 :: nat) + patch_radius ex_denoiserF < fst (resolution ex_parametersF) \<and>
   patch_radius ex_denoiserF \<le> snd (0 :: nat, 0 :: nat) \<and>
   snd (0 :: nat, 0 :: nat) + patch_radius ex_denoiserF < snd (resolution ex_parametersF) \<and>
   0 \<le> histogram_distance_threshold ex_denoiserF \<and>
   window_pixels (makeSearchWindow ex_denoiserF (resolution ex_parametersF) (0, 0))
     = [(0, 0), (1, 0)] \<and>
   patch_distance 3 ex_denoiserF ex_parametersF (0, 0) (1, 0) = Some (6 + 1 / 2 ^ 50) \<and>
   (\<exists>dd. patch_distance 3 ex_denoiserF ex_parametersF (0, 0) (1, 0) = Some dd \<and>
          (ex_maskF ! getIndex (makeSearchWindow ex_denoiserF (resolution ex_parametersF) (0, 0)) (1, 0)
             \<longleftrightarrow> dd \<le> histogram_distance_threshold ex_denoiserF)) \<and>
   ex_maskF ! getIndex (makeSearchWindow ex_denoiserF (resolution ex_parametersF) (0, 0)) (0, 0)"
proof -
  have run: "selectSimilarPatches 1 ex_denoiserA ex_parametersA (1, 1) = Some ex_maskA"
    by code_simp
  have hyps: "patch_radius ex_denoiserA \<le> fst (1 :: nat, 1 :: nat)"
    "fst (1 :: nat, 1 :: nat) + patch_radius ex_denoiserA < fst (resolution ex_parametersA)"
    "patch_radius ex_denoiserA \<le> snd (1 :: nat, 1 :: nat)"
    "snd (1 :: nat, 1 :: nat) + patch_radius ex_denoiserA < snd (resolution ex_parametersA)"
    "0 \<le> histogram_distance_threshold ex_denoiserA"
    by (simp_all add: ex_denoiserA_def ex_parametersA_def)
  have win: "window_pixels (makeSearchWindow ex_denoiserA (resolution ex_parametersA) (1, 1))
     = [(1, 1), (2, 1), (1, 2), (2, 2)]"
    by code_simp
  have mem: "(2, 2) \<in> set (window_pixels (makeSearchWindow ex_denoiserA (resolution ex_parametersA) (1, 1)))"
    unfolding win by simp
  have runF: "selectSimilarPatches 3 ex_denoiserF ex_parametersF (0, 0) = Some ex_maskF"
    by code_simp
  have hypsF: "patch_radius ex_denoiserF \<le> fst (0 :: nat, 0 :: nat)"
    "fst (0 :: nat, 0 :: nat) + patch_radius ex_denoiserF < fst (resolution ex_parametersF)"
    "patch_radius ex_denoiserF \<le> snd (0 :: nat, 0 :: nat)"
    "snd (0 :: nat, 0 :: nat) + patch_radius ex_denoiserF < snd (resolution ex_parametersF)"
    "0 \<le> histogram_distance_threshold ex_denoiserF"
    by (simp_all add: ex_denoiserF_def ex_parametersF_def)
  have winF: "window_pixels (makeSearchWindow ex_denoiserF (resolution ex_parametersF) (0, 0))
     = [(0, 0), (1, 0)]"
    by code_simp
  have memF: "(1, 0) \<in> set (window_pixels (makeSearchWindow ex_denoiserF (resolution ex_parametersF) (0, 0)))"
    unfolding winF by simp
  have distF: "patch_distance 3 ex_denoiserF ex_parametersF (0, 0) (1, 0) = Some (6 + 1 / 2 ^ 50)"
    by code_simp
  have A: "(\<exists>dd. patch_distance 1 ex_denoiserA ex_parametersA (1, 1) (2, 2) = Some dd \<and>
          (ex_maskA ! getIndex (makeSearchWindow ex_denoiserA (resolution ex_parametersA) (1, 1)) (2, 2)
             \<longleftrightarrow> dd \<le> histogram_distance_threshold ex_denoiserA)) \<and>
   ex_maskA ! getIndex (makeSearchWindow ex_denoiserA (resolution ex_parametersA) (1, 1)) (1, 1)"
    using C6_similar_mask [of 1 ex_denoiserA ex_parametersA "(1, 1)" ex_maskA] run hyps mem
    by blast
  have F: "(\<exists>dd. patch_distance 3 ex_denoiserF ex_parametersF (0, 0) (1, 0) = Some dd \<and>
          (ex_maskF ! getIndex (makeSearchWindow ex_denoiserF (resolution ex_parametersF) (0, 0)) (1, 0)
             \<longleftrightarrow> dd \<le> histogram_distance_threshold ex_denoiserF)) \<and>
   ex_maskF ! getIndex (makeSearchWindow ex_denoiserF (resolution ex_parametersF) (0, 0)) (0, 0)"
    using C6_similar_mask [of 3 ex_denoiserF ex_parametersF "(0, 0)" ex_maskF] runF hypsF memF
    by blast
  from A F run hyps win runF hypsF winF distF show ?thesis by (intro conjI) blast+
qed
subsection \<open>The scale that denoiseMultiscale denoises\<close>

text \<open>C1, as stated, fails: with two scales the loop over the scales starts at
  \<open>scale = num_of_scales - 1\<close>, the coarsest scale, and leaves after this iteration. For the
  \<open>4 \<times> 2\<close> image of the example the coarsest scale is \<open>2 \<times> 1\<close>: \<open>aggregateFinal\<close>
  writes its values \<open>7 / 2\<close> and \<open>11 / 2\<close> to the first two pixels of the statistics and
  leaves the others as they were, where the pass over the finest scale (scale 0) gives
  \<open>1, 2, \<dots>, 8\<close>.\<close>

theorem C1_finest_scale_counterexample:
  "1 \<le> num_of_scales ex_denoiserB \<and>
   map_option denoisedSampleTable (denoiseMultiscale 1 ex_denoiserB ex_systemB 2 ex_statisticsB)
     = Some [[7 / 2], [11 / 2], [0], [0], [0], [0], [0], [0]] \<and>
   map_option denoisedSampleTable (denoiseScale 1 ex_denoiserB ex_systemB 2 ex_statisticsB 0)
     = Some [[1], [2], [3], [4], [5], [6], [7], [8]]"
  by code_simp

text \<open>C1, amended: with at least one scale, \<open>denoiseMultiscale\<close> denoises exactly one scale,
  the coarsest one (index \<open>num_of_scales - 1\<close> of the pyramid, which is the finest one only
  when there is one scale), and \<open>aggregateFinal\<close> writes back the image computed on that
  \<open>Parameters\<close> instance.\<close>

theorem C1_coarsest_scale:
  "1 \<le> num_of_scales d \<longrightarrow>
   denoiseMultiscale N d system cycle statistics
     = denoiseScale N d system cycle statistics (num_of_scales d - 1)"
proof
  assume n: "1 \<le> num_of_scales d"
  then have u: "usub (num_of_scales d) (0 + 1) = num_of_scales d - 1" by (simp add: usub_def)
  show "denoiseMultiscale N d system cycle statistics
          = denoiseScale N d system cycle statistics (num_of_scales d - 1)"
    using n unfolding denoiseMultiscale_def denoiseScale_def scale_loop_def scale_iteration_def
      Let_def u
    by (auto simp: vec_at_def split: Option.bind_split if_splits)
qed

theorem C1_coarsest_scale_witness:
  "1 \<le> num_of_scales ex_denoiserB \<and>
   denoiseMultiscale 1 ex_denoiserB ex_systemB 2 ex_statisticsB
     = denoiseScale 1 ex_denoiserB ex_systemB 2 ex_statisticsB 1 \<and>
   map_option denoisedSampleTable (denoiseScale 1 ex_denoiserB ex_systemB 2 ex_statisticsB 1)
     = Some [[7 / 2], [11 / 2], [0], [0], [0], [0], [0], [0]]"
proof -
  have n: "1 \<le> num_of_scales ex_denoiserB" and n1: "num_of_scales ex_denoiserB - 1 = 1"
    by (simp_all add: ex_denoiserB_def)
  have v: "map_option denoisedSampleTable (denoiseScale 1 ex_denoiserB ex_systemB 2 ex_statisticsB 1)
     = Some [[7 / 2], [11 / 2], [0], [0], [0], [0], [0], [0]]"
    by code_simp
  show ?thesis
    using C1_coarsest_scale [of ex_denoiserB 1 ex_systemB 2 ex_statisticsB] n n1 v by simp
qed

subsection \<open>Marked pixels and counted pixels\<close>

lemma and_mask_mod: "(x::nat) AND (2 ^ k - 1) = x mod 2 ^ k"
proof -
  have "x AND (2 ^ k - 1) = x AND mask k" by (simp only: mask_eq_exp_minus_1)
  also have "\<dots> = take_bit k x" by (simp only: take_bit_eq_mask)
  also have "\<dots> = x mod 2 ^ k" by (rule take_bit_eq_mod)
  finally show ?thesis .
qed

lemma isMarked_Some:
  "isMarked d m j = Some b \<longleftrightarrow>
     j div 2 ^ kMarkerRepBits d < length m \<and>
     j mod 2 ^ kMarkerRepBits d < length (m ! (j div 2 ^ kMarkerRepBits d)) \<and>
     b = m ! (j div 2 ^ kMarkerRepBits d) ! (j mod 2 ^ kMarkerRepBits d)"
  unfolding isMarked_def Let_def and_mask_mod drop_bit_eq_div
  by (auto simp: bind_eq_Some_conv')

lemma mark_Some:
  "mark d m j = Some m' \<longleftrightarrow>
     j div 2 ^ kMarkerRepBits d < length m \<and>
     j mod 2 ^ kMarkerRepBits d < length (m ! (j div 2 ^ kMarkerRepBits d)) \<and>
     m' = m[j div 2 ^ kMarkerRepBits d :=
              (m ! (j div 2 ^ kMarkerRepBits d))[j mod 2 ^ kMarkerRepBits d := True]]"
  unfolding mark_def Let_def and_mask_mod drop_bit_eq_div
  by (auto simp: bind_eq_Some_conv')

lemma isMarked_mark:
  assumes "mark d m i = Some m'" "isMarked d m' j = Some True"
  shows "j = i \<or> isMarked d m j = Some True"
proof (cases "j div 2 ^ kMarkerRepBits d = i div 2 ^ kMarkerRepBits d \<and>
              j mod 2 ^ kMarkerRepBits d = i mod 2 ^ kMarkerRepBits d")
  case True
  then have "j = i" by (metis div_mult_mod_eq)
  then show ?thesis by simp
next
  case False
  then show ?thesis using assms
    by (auto simp: isMarked_Some mark_Some nth_list_update split: if_splits)
qed

lemma isMarked_mark_same:
  assumes "mark d m i = Some m'"
  shows "isMarked d m' i = Some True"
  using assms by (auto simp: isMarked_Some mark_Some)

lemma isMarked_mark_mono:
  assumes "mark d m i = Some m'" "isMarked d m j = Some True"
  shows "isMarked d m' j = Some True"
  using assms by (auto simp: isMarked_Some mark_Some nth_list_update)

lemma isMarked_clear: "isMarked d (clear m) j \<noteq> Some True"
  by (auto simp: isMarked_Some clear_def)

lemma isMarked_PixelMarker: "isMarked d (PixelMarker d system) j \<noteq> Some True"
  by (auto simp: isMarked_Some PixelMarker_def Let_def)

lemma accumulate_staged_pixel_explicit:
  assumes "accumulate_staged_pixel d res sw off sm p w = Some w'"
  shows "w' = w \<or>
         (\<exists>m'. sm ! getIndex sw (tile_current sw p) \<and>
             offset_index d res (tile_current sw p) off < length (estimates_counter w) \<and>
             (if off = (patch_radius d, patch_radius d)
              then mark d (pixel_marker w) (offset_index d res (tile_current sw p) off) = Some m'
              else m' = pixel_marker w) \<and>
             w' = w\<lparr>parameters := (parameters w)\<lparr>denoised_value_table :=
                      (denoised_value_table (parameters w))[offset_index d res (tile_current sw p) off :=
                         arr_add (denoised_value_table (parameters w) ! offset_index d res (tile_current sw p) off)
                           (staging_value_table w ! offset_index d res (tile_current sw p) off)]\<rparr>,
                    estimates_counter := (estimates_counter w)[offset_index d res (tile_current sw p) off :=
                        estimates_counter w ! offset_index d res (tile_current sw p) off + 1],
                    pixel_marker := m'\<rparr>)"
  using assms
  by (auto simp: accumulate_staged_pixel_def Let_def bind_eq_Some_conv' split: if_splits)

lemma accumulate_staged_pixel_Some:
  assumes "accumulate_staged_pixel d res sw off sm p w = Some w'"
  shows "w' = w \<or>
         (\<exists>den m'. sm ! getIndex sw (tile_current sw p) \<and>
             length den = length (denoised_value_table (parameters w)) \<and>
             offset_index d res (tile_current sw p) off < length (estimates_counter w) \<and>
             (if off = (patch_radius d, patch_radius d)
              then mark d (pixel_marker w) (offset_index d res (tile_current sw p) off) = Some m'
              else m' = pixel_marker w) \<and>
             w' = w\<lparr>parameters := (parameters w)\<lparr>denoised_value_table := den\<rparr>,
                    estimates_counter := (estimates_counter w)[offset_index d res (tile_current sw p) off :=
                        estimates_counter w ! offset_index d res (tile_current sw p) off + 1],
                    pixel_marker := m'\<rparr>)"
  using accumulate_staged_pixel_explicit [OF assms]
proof (elim disjE exE conjE)
  assume "w' = w"
  then show ?thesis by simp
next
  let ?i = "offset_index d res (tile_current sw p) off"
  let ?den = "(denoised_value_table (parameters w))[?i :=
       arr_add (denoised_value_table (parameters w) ! ?i) (staging_value_table w ! ?i)]"
  fix m'
  assume "sm ! getIndex sw (tile_current sw p)" "?i < length (estimates_counter w)"
    "if off = (patch_radius d, patch_radius d)
       then mark d (pixel_marker w) ?i = Some m' else m' = pixel_marker w"
    "w' = w\<lparr>parameters := (parameters w)\<lparr>denoised_value_table := ?den\<rparr>,
            estimates_counter := (estimates_counter w)[?i := estimates_counter w ! ?i + 1],
            pixel_marker := m'\<rparr>"
  moreover have "length ?den = length (denoised_value_table (parameters w))" by simp
  ultimately show ?thesis by blast
qed

lemma marked_counted_accumulate_pixel:
  assumes "accumulate_staged_pixel d res sw off sm p w = Some w'" "marked_counted d w"
  shows "marked_counted d w'"
  using accumulate_staged_pixel_Some [OF assms(1)]
proof (elim disjE exE conjE)
  assume "w' = w"
  then show ?thesis using assms(2) by simp
next
  let ?i = "offset_index d res (tile_current sw p) off"
  fix den m'
  assume lt: "?i < length (estimates_counter w)"
    and mk: "if off = (patch_radius d, patch_radius d)
              then mark d (pixel_marker w) ?i = Some m' else m' = pixel_marker w"
    and w': "w' = w\<lparr>parameters := (parameters w)\<lparr>denoised_value_table := den\<rparr>,
                estimates_counter := (estimates_counter w)[?i := estimates_counter w ! ?i + 1],
                pixel_marker := m'\<rparr>"
  have nonneg: "0 \<le> estimates_counter w ! ?i" using assms(2) lt by (simp add: marked_counted_def)
  have m: "j = ?i \<or> isMarked d (pixel_marker w) j = Some True" if "isMarked d m' j = Some True" for j
    using mk that isMarked_mark [of d "pixel_marker w" ?i m' j] by (auto split: if_splits)
  show ?thesis
    unfolding marked_counted_def
  proof (intro conjI allI impI)
    fix j assume "isMarked d (pixel_marker w') j = Some True"
    then have "j = ?i \<or> isMarked d (pixel_marker w) j = Some True" using m w' by simp
    then have "j < length (estimates_counter w) \<and>
               1 \<le> (estimates_counter w)[?i := estimates_counter w ! ?i + 1] ! j"
      using assms(2) lt nonneg by (auto simp: marked_counted_def nth_list_update)
    then show "j < length (estimates_counter w')" "1 \<le> estimates_counter w' ! j"
      using w' by simp_all
  next
    fix j assume "j < length (estimates_counter w')"
    then show "0 \<le> estimates_counter w' ! j"
      using assms(2) w' nonneg lt by (auto simp: marked_counted_def nth_list_update)
  qed
qed

lemma marked_counted_staging:
  "marked_counted d (w\<lparr>staging_value_table := s\<rparr>) = marked_counted d w"
  by (simp add: marked_counted_def)

lemma marked_counted_selected_offset:
  assumes "denoiseSelectedPatches_offset N d res sw sm pn w = Some w'" "marked_counted d w"
  shows "marked_counted d w'"
proof -
  from assms(1) obtain s where
    "accumulate_staged d res sw (patch_offset_of d pn) sm (w\<lparr>staging_value_table := s\<rparr>) = Some w'"
    by (auto simp: denoiseSelectedPatches_offset_def Let_def bind_eq_Some_conv')
  then show ?thesis
    unfolding accumulate_staged_def
    by (rule for_each_invariant)
       (use assms(2) marked_counted_accumulate_pixel in \<open>auto simp: marked_counted_staging\<close>)
qed

lemma marked_counted_main_offset:
  assumes "denoiseOnlyMainPatch_offset N d res sw mp sm pn w = Some w'" "marked_counted d w"
  shows "marked_counted d w'"
  using denoiseOnlyMainPatch_offset_Some [OF assms(1)] assms(2)
  by (auto simp: marked_counted_def nth_list_update)

lemma marked_counted_denoisePixels:
  assumes "denoisePixels N d mp w = Some w'" "marked_counted d w"
  shows "marked_counted d w'"
proof -
  from assms(1) obtain sm where
    "denoiseOnlyMainPatch N d mp sm w = Some w' \<or> denoiseSelectedPatches N d mp sm w = Some w'"
    by (auto simp: denoisePixels_def Let_def bind_eq_Some_conv' split: if_splits)
  then show ?thesis
  proof
    assume "denoiseOnlyMainPatch N d mp sm w = Some w'"
    then show ?thesis
      unfolding denoiseOnlyMainPatch_def Let_def
      by (rule for_each_invariant) (use assms(2) marked_counted_main_offset in auto)
  next
    assume "denoiseSelectedPatches N d mp sm w = Some w'"
    then show ?thesis
      unfolding denoiseSelectedPatches_def Let_def
      by (rule for_each_invariant) (use assms(2) marked_counted_selected_offset in auto)
  qed
qed

lemma marked_counted_chunk_pixel:
  assumes "denoise_chunk_pixel N d res tile p w = Some w'" "marked_counted d w"
  shows "marked_counted d w'"
proof -
  from assms(1) have "w' = w \<or> denoisePixels N d (tile_current tile p) w = Some w'"
    by (auto simp: denoise_chunk_pixel_def Let_def bind_eq_Some_conv' split: if_splits)
  then show ?thesis
    using assms(2) marked_counted_denoisePixels [of N d "tile_current tile p" w w'] by blast
qed

lemma marked_counted_denoiseChunk:
  assumes "denoiseChunk N d cr tp w = Some w'" "marked_counted d w"
  shows "marked_counted d w'"
  using assms(1) unfolding denoiseChunk_def
proof (rule for_each_invariant)
  show "marked_counted d w" by fact
next
  fix cn t t'
  assume "marked_counted d t" "denoise_chunk N d cr tp cn t = Some t'"
  then show "marked_counted d t'"
    unfolding denoise_chunk_def Let_def
    by (auto split: if_splits elim!: for_each_invariant intro: marked_counted_chunk_pixel)
qed

lemma marked_counted_denoise_tiles:
  assumes "denoise_tiles N d w = Some w'" "marked_counted d w"
  shows "marked_counted d w'"
proof -
  from assms(1) obtain cr where
    "for_each (\<lambda>tile_position. denoiseChunk N d cr tile_position) (getChunkTileOrder d) w = Some w'"
    by (auto simp: denoise_tiles_def bind_eq_Some_conv')
  then show ?thesis
    by (rule for_each_invariant) (use assms(2) marked_counted_denoiseChunk in auto)
qed

text \<open>C9, as stated, fails: a pixel can be counted without being marked. In the pass over
  the \<open>4 \<times> 4\<close> scale of the example every pixel has at most four similar patches, fewer
  than the patch dimension of nine, so only \<open>denoiseOnlyMainPatch\<close> runs, which counts and
  never marks: at the end every counter is at least one and no pixel is marked.\<close>

theorem C9_counted_not_marked_counterexample:
  "map_option estimates_counter (denoise_tiles 1 ex_denoiserA ex_workA)
     = Some [1, 2, 2, 1, 2, 4, 4, 2, 2, 4, 4, 2, 1, 2, 2, 1] \<and>
   map_option (\<lambda>w. map (isMarked ex_denoiserA (pixel_marker w)) [0..<16])
       (denoise_tiles 1 ex_denoiserA ex_workA)
     = Some (replicate 16 (Some False))"
  by code_simp

text \<open>C9, amended: throughout one scale's denoising pass, every pixel whose marker bit is
  set has an estimates counter of at least one (the marked pixels are among the counted
  ones, not the other way round). The property holds for the cleared buffers at the start
  of the pass, and \<open>denoisePixels\<close>, \<open>denoiseChunk\<close> and the pass over all tiles keep
  it.\<close>

theorem C9_marked_are_counted:
  "marked_counted d \<lparr>parameters = p, staging_value_table = st,
      estimates_counter = map (\<lambda>c. 0) cs, pixel_marker = clear m\<rparr> \<and>
   (marked_counted d w \<and> denoisePixels N d mp w = Some w' \<longrightarrow> marked_counted d w') \<and>
   (marked_counted d w \<and> denoiseChunk N d cr tp w = Some w' \<longrightarrow> marked_counted d w') \<and>
   (marked_counted d w \<and> denoise_tiles N d w = Some w' \<longrightarrow> marked_counted d w')"
proof (intro conjI impI)
  show "marked_counted d \<lparr>parameters = p, staging_value_table = st,
      estimates_counter = map (\<lambda>c. 0) cs, pixel_marker = clear m\<rparr>"
    by (simp add: marked_counted_def isMarked_clear)
next
  assume "marked_counted d w \<and> denoisePixels N d mp w = Some w'"
  then show "marked_counted d w'" using marked_counted_denoisePixels by blast
next
  assume "marked_counted d w \<and> denoiseChunk N d cr tp w = Some w'"
  then show "marked_counted d w'" using marked_counted_denoiseChunk by blast
next
  assume "marked_counted d w \<and> denoise_tiles N d w = Some w'"
  then show "marked_counted d w'" using marked_counted_denoise_tiles by blast
qed

theorem C9_marked_are_counted_witness:
  "marked_counted ex_denoiserC ex_workC \<and>
   denoise_tiles 1 ex_denoiserC ex_workC = Some ex_workC1 \<and>
   marked_counted ex_denoiserC ex_workC1 \<and>
   isMarked ex_denoiserC (pixel_marker ex_workC1) 1 = Some True \<and>
   estimates_counter ex_workC1 ! 1 = 1"
proof -
  have run: "denoise_tiles 1 ex_denoiserC ex_workC = Some ex_workC1" by code_simp
  have start: "marked_counted ex_denoiserC ex_workC"
    unfolding ex_workC_def
    using C9_marked_are_counted [of ex_denoiserC ex_parametersC "replicate 8 [0]"
        "replicate 8 0" "PixelMarker ex_denoiserC ex_systemB"]
    by blast
  have "marked_counted ex_denoiserC ex_workC1"
    using C9_marked_are_counted [of ex_denoiserC _ _ _ _ ex_workC 1 _ ex_workC1] start run by blast
  moreover have "isMarked ex_denoiserC (pixel_marker ex_workC1) 1 = Some True"
    "estimates_counter ex_workC1 ! 1 = 1" by code_simp+
  ultimately show ?thesis using start run by simp
qed

subsection \<open>Coverage of the pass\<close>





































subsection \<open>Parameters::init\<close>

lemma init_progress_refl: "init_progress ar N statistics p p"
  by (simp add: init_progress_def)

lemma init_progress_trans:
  "init_progress ar N statistics p q \<Longrightarrow> init_progress ar N statistics q r \<Longrightarrow> init_progress ar N statistics p r"
  by (simp add: init_progress_def)

lemma those_map_Some:
  "those (map f xs) = Some ys \<Longrightarrow> ys = map (\<lambda>x. the (f x)) xs \<and> (\<forall>x \<in> set xs. f x \<noteq> None)"
  by (induction xs arbitrary: ys) (auto split: option.splits)

lemma factor_pairs_le: "(a, b) \<in> set (factor_pairs N) \<Longrightarrow> a \<le> b \<and> b < N"
  by (auto simp: factor_pairs_def)

lemma finvert_Some [simp]: "finvert ar x = Some k \<longleftrightarrow> x \<noteq> 0 \<and> k = fdiv ar 1 x"
  by (auto simp: finvert_def)

lemma init_pixel_step:
  assumes run: "init_pixel ar N statistics (fdiv ar 1 (fcast ar (num_of_samples p)))
                  (fdiv ar 1 (fcast ar (usub (num_of_samples p) 1))) x p = Some p'"
  shows "init_progress ar N statistics p p' \<and> pixel_done ar N statistics p' x"
proof -
  let ?k = "fdiv ar 1 (fcast ar (num_of_samples p))"
  let ?k1 = "fdiv ar 1 (fcast ar (usub (num_of_samples p) 1))"
  let ?S = "\<lambda>a. sampleTable statistics ! x ! a"
  let ?g = "\<lambda>s a b. fsub ar s (fmul ar (fmul ar ?k (?S a)) (?S b))"
  let ?f = "\<lambda>(si_a, si_b). do {
             s \<leftarrow> (if si_a = si_b then Some (sampleSquaredTable statistics ! x ! si_a)
                  else vec_at (covarianceFactorTable statistics)
                         (numOfCovarianceFactors statistics * x +
                          (getFactorIndex statistics si_a + usub (usub si_b si_a) 1)));
             Some (?g s si_a si_b)
           }"
  from run obtain cf where
    x: "x < length (sample_value_table p)" "x < length (covariance_factor_table p)"
    and cf: "those (map ?f (factor_pairs N)) = Some cf"
    and p': "p' = p\<lparr>sample_value_table := (sample_value_table p)[x :=
                     map (\<lambda>si. fmul ar ?k (?S si)) [0..<N]],
                   covariance_factor_table := (covariance_factor_table p)[x :=
                     map (\<lambda>v. fmul ar v (fmul ar ?k ?k1)) cf]\<rparr>"
    by (auto simp: init_pixel_def bind_eq_Some_conv')
  from those_map_Some [OF cf]
  have cf1: "cf = map (\<lambda>pr. the (?f pr)) (factor_pairs N)"
    and ok: "\<forall>pr \<in> set (factor_pairs N). ?f pr \<noteq> None" by simp_all
  have "the (?f pr) = (case pr of (a, b) \<Rightarrow> ?g (cross_sum statistics x a b) a b)"
    if "pr \<in> set (factor_pairs N)" for pr
  proof -
    obtain a b where pr: "pr = (a, b)" by (cases pr)
    with that have le: "a \<le> b" using factor_pairs_le by blast
    show ?thesis
    proof (cases "a = b")
      case True
      then show ?thesis by (simp add: pr cross_sum_def)
    next
      case False
      with le have lt: "a < b" by simp
      then have u: "usub (usub b a) 1 = b - a - 1" by (simp add: usub_minus)
      then have u': "usub (usub b a) (Suc 0) = b - Suc a" by simp
      from ok that pr have "?f (a, b) \<noteq> None" by blast
      then have "vec_at (covarianceFactorTable statistics)
            (numOfCovarianceFactors statistics * x + (getFactorIndex statistics a + (b - a - 1))) \<noteq> None"
        using False by (auto simp: u' bind_eq_Some_conv')
      then show ?thesis using False by (auto simp: pr cross_sum_def u' vec_at_def split: if_splits)
    qed
  qed
  then have cf2: "cf = map (\<lambda>(a, b). ?g (cross_sum statistics x a b) a b) (factor_pairs N)"
    unfolding cf1 by (intro map_cong refl) auto
  have "map (\<lambda>v. fmul ar v (fmul ar ?k ?k1)) cf =
        map (\<lambda>(a, b). init_covariance_factor ar (num_of_samples p)
                 (cross_sum statistics x a b) (?S a) (?S b)) (factor_pairs N)"
    unfolding cf2 map_map
    by (rule map_cong) (auto simp: init_covariance_factor_def Let_def)
  then have fin: "pixel_done ar N statistics p' x"
    using x by (simp add: pixel_done_def p' init_expected_value_def)
  have "pixel_done ar N statistics p' j" if "pixel_done ar N statistics p j" for j
  proof (cases "j = x")
    case True
    then show ?thesis using fin by simp
  next
    case False
    then show ?thesis using that by (simp add: pixel_done_def p')
  qed
  moreover have "histogram_done N statistics p' b j" if "histogram_done N statistics p b j" for b j
    using that by (simp add: histogram_done_def p')
  ultimately show ?thesis using fin by (simp add: init_progress_def p')
qed

lemma init_histogram_step:
  assumes run: "init_histogram N statistics b x p = Some p'"
    and x: "x < fst (resolution p) * snd (resolution p)"
  shows "init_progress ar N statistics p p' \<and> histogram_done N statistics p' b x"
proof -
  let ?n = "fst (resolution p) * snd (resolution p)"
  from run have i: "b * ?n + x < length (histogram_table p)"
    and p': "p' = p\<lparr>histogram_table := (histogram_table p)[b * ?n + x :=
                 map (\<lambda>si. histogramTable statistics ! (histogram_bins p * x + b) ! si) [0..<N]]\<rparr>"
    by (auto simp: init_histogram_def Let_def bind_eq_Some_conv')
  have fin: "histogram_done N statistics p' b x"
    using i by (simp add: histogram_done_def p')
  have "histogram_done N statistics p' c j"
    if "histogram_done N statistics p c j" "j < ?n" for c j
  proof (cases "c * ?n + j = b * ?n + x")
    case True
    have "(j + ?n * c) mod ?n = j \<and> (j + ?n * c) div ?n = c"
      using that(2) by (rule mod_div_pair)
    moreover have "(x + ?n * b) mod ?n = x \<and> (x + ?n * b) div ?n = b"
      using x by (rule mod_div_pair)
    moreover have "j + ?n * c = x + ?n * b" using True by (simp add: ac_simps)
    ultimately have "j = x \<and> c = b" by metis
    then show ?thesis using fin by simp
  next
    case False
    then show ?thesis using that(1) by (simp add: histogram_done_def p')
  qed
  moreover have "pixel_done ar N statistics p' j" if "pixel_done ar N statistics p j" for j
    using that by (simp add: pixel_done_def p')
  ultimately show ?thesis using fin by (simp add: init_progress_def p')
qed

lemma histogram_ready_keep:
  "histogram_ready N statistics u b x \<Longrightarrow> init_progress ar N statistics u u' \<Longrightarrow>
     histogram_ready N statistics u' b x"
  by (simp add: histogram_ready_def init_progress_def)

lemma pixel_done_keep:
  "pixel_done ar N statistics u x \<Longrightarrow> init_progress ar N statistics u u' \<Longrightarrow> pixel_done ar N statistics u' x"
  by (simp add: init_progress_def)

lemma init_parameters_step:
  assumes run: "init_parameters ar N system statistics t p = Some p'"
    and t: "t < numOfThreads system"
  defines "rng \<equiv> calcThreadRange system (fst (resolution p) * snd (resolution p)) t"
  shows "init_progress ar N statistics p p' \<and>
         (\<forall>x \<in> {fst rng..<snd rng}. pixel_done ar N statistics p' x \<and>
            (\<forall>b < histogram_bins p. histogram_ready N statistics p' b x))"
proof -
  let ?n = "fst (resolution p) * snd (resolution p)"
  let ?J = "\<lambda>u. resolution u = resolution p \<and> num_of_samples u = num_of_samples p \<and>
                 histogram_bins u = histogram_bins p"
  let ?M = "init_progress ar N statistics"
  let ?k = "fdiv ar 1 (fcast ar (num_of_samples p))"
  let ?k1 = "fdiv ar 1 (fcast ar (usub (num_of_samples p) 1))"
  from run obtain p1 where
    l1: "for_each (init_pixel ar N statistics ?k ?k1) [fst rng..<snd rng] p = Some p1"
    and l2: "for_each (\<lambda>b. for_each (init_histogram N statistics b) [fst rng..<snd rng])
               [0..<histogram_bins p] p1 = Some p'"
    by (auto simp: init_parameters_def Let_def rng_def bind_eq_Some_conv')
  have bound: "x < ?n" if "x \<in> set [fst rng..<snd rng]" for x
    using that calcThreadRange_bound [OF t, of ?n] by (simp add: rng_def)
  have r1: "?J p1 \<and> ?M p p1 \<and> (\<forall>x \<in> set [fst rng..<snd rng]. pixel_done ar N statistics p1 x)"
  proof (rule for_each_cover [OF l1, where J = ?J and M = ?M])
    show "?J p" by simp
  next
    fix x u u'
    assume J: "?J u" and b: "init_pixel ar N statistics ?k ?k1 x u = Some u'"
    from J b have "init_pixel ar N statistics (fdiv ar 1 (fcast ar (num_of_samples u)))
                  (fdiv ar 1 (fcast ar (usub (num_of_samples u) 1))) x u = Some u'" by simp
    from init_pixel_step [OF this] J
    show "?J u' \<and> ?M u u' \<and> pixel_done ar N statistics u' x"
      by (simp add: init_progress_def)
  next
    show "?M u u" for u by (rule init_progress_refl)
  next
    show "?M u v \<Longrightarrow> ?M v w \<Longrightarrow> ?M u w" for u v w by (rule init_progress_trans)
  next
    show "pixel_done ar N statistics u x \<Longrightarrow> ?M u u' \<Longrightarrow> pixel_done ar N statistics u' x" for x u u'
      by (rule pixel_done_keep)
  qed
  have inner: "?J u' \<and> ?M u u' \<and> (\<forall>x \<in> set [fst rng..<snd rng]. histogram_ready N statistics u' b x)"
    if J: "?J u" and b: "for_each (init_histogram N statistics b) [fst rng..<snd rng] u = Some u'"
    for b u u'
  proof (rule for_each_cover [OF b, where J = ?J and M = ?M])
    show "?J u" by (rule J)
  next
    fix x v v'
    assume x: "x \<in> set [fst rng..<snd rng]" and Jv: "?J v"
      and s: "init_histogram N statistics b x v = Some v'"
    have "x < fst (resolution v) * snd (resolution v)" using bound [OF x] Jv by simp
    from init_histogram_step [OF s this] Jv this
    show "?J v' \<and> ?M v v' \<and> histogram_ready N statistics v' b x"
      by (simp add: init_progress_def histogram_ready_def)
  next
    show "?M u u" for u by (rule init_progress_refl)
  next
    show "?M u v \<Longrightarrow> ?M v w \<Longrightarrow> ?M u w" for u v w by (rule init_progress_trans)
  next
    show "histogram_ready N statistics u b x \<Longrightarrow> ?M u u' \<Longrightarrow> histogram_ready N statistics u' b x"
      for x u u' by (rule histogram_ready_keep)
  qed
  have r2: "?J p' \<and> ?M p1 p' \<and>
     (\<forall>b \<in> set [0..<histogram_bins p]. \<forall>x \<in> set [fst rng..<snd rng]. histogram_ready N statistics p' b x)"
  proof (rule for_each_cover [OF l2, where J = ?J and M = ?M
        and C = "\<lambda>b u. \<forall>x \<in> set [fst rng..<snd rng]. histogram_ready N statistics u b x"])
    show "?J p1" using r1 by simp
  next
    fix b u u'
    assume "?J u" "for_each (init_histogram N statistics b) [fst rng..<snd rng] u = Some u'"
    then show "?J u' \<and> ?M u u' \<and> (\<forall>x \<in> set [fst rng..<snd rng]. histogram_ready N statistics u' b x)"
      by (rule inner)
  next
    show "?M u u" for u by (rule init_progress_refl)
  next
    show "?M u v \<Longrightarrow> ?M v w \<Longrightarrow> ?M u w" for u v w by (rule init_progress_trans)
  next
    show "\<forall>x \<in> set [fst rng..<snd rng]. histogram_ready N statistics u b x \<Longrightarrow> ?M u u' \<Longrightarrow>
          \<forall>x \<in> set [fst rng..<snd rng]. histogram_ready N statistics u' b x" for b u u'
      using histogram_ready_keep by blast
  qed
  have "?M p p'" using r1 r2 init_progress_trans by blast
  moreover have "pixel_done ar N statistics p' x" if "x \<in> {fst rng..<snd rng}" for x
  proof -
    from r1 that have "pixel_done ar N statistics p1 x" by simp
    then show ?thesis using r2 pixel_done_keep by blast
  qed
  moreover have "histogram_ready N statistics p' b x"
    if "x \<in> {fst rng..<snd rng}" "b < histogram_bins p" for x b
    using r2 that by simp
  ultimately show ?thesis by blast
qed

lemma init_result:
  assumes run: "init ar N system cycle bins statistics p0 = Some p"
    and T: "1 \<le> numOfThreads system"
    and j: "j < fst (imageResolution system) * snd (imageResolution system)"
  shows "resolution p = imageResolution system \<and> num_of_samples p = cycle \<and>
         histogram_bins p = bins \<and> pixel_done ar N statistics p j \<and>
         (\<forall>b < bins. histogram_done N statistics p b j)"
proof -
  let ?res = "imageResolution system"
  let ?n = "fst ?res * snd ?res"
  let ?J = "\<lambda>u. resolution u = ?res \<and> num_of_samples u = cycle \<and> histogram_bins u = bins"
  let ?M = "init_progress ar N statistics"
  let ?W = "\<lambda>t. {fst (calcThreadRange system ?n t)..<snd (calcThreadRange system ?n t)}"
  let ?C = "\<lambda>t u. \<forall>x \<in> ?W t. pixel_done ar N statistics u x \<and>
                     (\<forall>b < bins. histogram_ready N statistics u b x)"
  define p1 where "p1 = p0\<lparr>resolution := ?res, num_of_samples := cycle, histogram_bins := bins,
      sample_value_table := resize ?n (arr_zero N) (sample_value_table p0),
      histogram_table := resize (bins * fst ?res * snd ?res) (arr_zero N) (histogram_table p0),
      covariance_factor_table := resize ?n (arr_zero (numOfFactors N)) (covariance_factor_table p0),
      denoised_value_table := resize ?n (arr_zero N) (denoised_value_table p0)\<rparr>"
  have p1: "?J p1" by (simp add: p1_def)
  from run have loop:
    "for_each (init_parameters ar N system statistics) [0..<numOfThreads system] p1 = Some p"
    by (simp add: init_def Let_def p1_def)
  have r: "?J p \<and> ?M p1 p \<and> (\<forall>t \<in> set [0..<numOfThreads system]. ?C t p)"
  proof (rule for_each_cover [OF loop, where J = ?J and M = ?M and C = ?C])
    show "?J p1" by (rule p1)
  next
    fix t u u'
    assume t: "t \<in> set [0..<numOfThreads system]" and J: "?J u"
      and s: "init_parameters ar N system statistics t u = Some u'"
    from t have "t < numOfThreads system" by simp
    from init_parameters_step [OF s this] J
    show "?J u' \<and> ?M u u' \<and> ?C t u'" by (simp add: init_progress_def)
  next
    show "?M u u" for u by (rule init_progress_refl)
  next
    show "?M u v \<Longrightarrow> ?M v w \<Longrightarrow> ?M u w" for u v w by (rule init_progress_trans)
  next
    show "?C t u \<Longrightarrow> ?M u u' \<Longrightarrow> ?C t u'" for t u u'
      using histogram_ready_keep pixel_done_keep by blast
  qed
  from calcThreadRange_cover [OF T j] obtain t where
    t: "t < numOfThreads system" "j \<in> ?W t" by auto
  then have "pixel_done ar N statistics p j \<and> (\<forall>b < bins. histogram_ready N statistics p b j)"
    using r by auto
  then show ?thesis using r by (simp add: histogram_ready_def)
qed

lemma sum_squared_le:
  fixes y :: "nat \<Rightarrow> real"
  assumes n: "0 < n"
  shows "(\<Sum>i<n. y i)\<^sup>2 / real n \<le> (\<Sum>i<n. (y i)\<^sup>2)"
proof -
  define m where "m = (\<Sum>i<n. y i) / real n"
  have "0 \<le> (\<Sum>i<n. (y i - m)\<^sup>2)" by (rule sum_nonneg) simp
  also have "(\<Sum>i<n. (y i - m)\<^sup>2) = (\<Sum>i<n. (y i)\<^sup>2 - 2 * m * y i + m\<^sup>2)"
    by (rule sum.cong) (simp_all add: power2_diff algebra_simps)
  also have "\<dots> = (\<Sum>i<n. (y i)\<^sup>2) - 2 * m * (\<Sum>i<n. y i) + real n * m\<^sup>2"
    by (simp add: sum.distrib sum_subtractf sum_distrib_left)
  also have "2 * m * (\<Sum>i<n. y i) = 2 * (real n * m\<^sup>2)"
    using n by (simp add: m_def power2_eq_square)
  also have "real n * m\<^sup>2 = (\<Sum>i<n. y i)\<^sup>2 / real n"
    using n by (simp add: m_def power2_eq_square)
  finally show ?thesis by simp
qed

lemma sample_covariance_psd:
  fixes X :: "nat \<Rightarrow> nat \<Rightarrow> real" and v :: "nat \<Rightarrow> real"
  assumes n: "2 \<le> n"
  shows "0 \<le> (\<Sum>a<N. \<Sum>b<N. v a *
            (1 / (real n * (real n - 1)) *
               ((\<Sum>i<n. X i a * X i b) - (\<Sum>i<n. X i a) * (\<Sum>i<n. X i b) / real n)) * v b)"
proof -
  define y where "y i = (\<Sum>a<N. v a * X i a)" for i
  define c where "c = 1 / (real n * (real n - 1))"
  have c: "0 \<le> c" using n by (simp add: c_def)
  have "(\<Sum>i<n. (y i)\<^sup>2) = (\<Sum>i<n. (\<Sum>a<N. v a * X i a) * (\<Sum>b<N. v b * X i b))"
    by (simp add: y_def power2_eq_square)
  also have "\<dots> = (\<Sum>i<n. \<Sum>a<N. \<Sum>b<N. (v a * X i a) * (v b * X i b))"
    by (simp add: sum_product)
  also have "\<dots> = (\<Sum>a<N. \<Sum>i<n. \<Sum>b<N. (v a * X i a) * (v b * X i b))"
    by (rule sum.swap)
  also have "\<dots> = (\<Sum>a<N. \<Sum>b<N. \<Sum>i<n. (v a * X i a) * (v b * X i b))"
    by (intro sum.cong refl sum.swap)
  also have "\<dots> = (\<Sum>a<N. \<Sum>b<N. v a * (\<Sum>i<n. X i a * X i b) * v b)"
    by (intro sum.cong refl) (simp add: sum_distrib_left sum_distrib_right mult_ac)
  finally have A: "(\<Sum>a<N. \<Sum>b<N. v a * (\<Sum>i<n. X i a * X i b) * v b) = (\<Sum>i<n. (y i)\<^sup>2)" ..
  have "(\<Sum>i<n. y i) = (\<Sum>a<N. \<Sum>i<n. v a * X i a)"
    unfolding y_def by (rule sum.swap)
  also have "\<dots> = (\<Sum>a<N. v a * (\<Sum>i<n. X i a))"
    by (simp add: sum_distrib_left)
  finally have y: "(\<Sum>i<n. y i) = (\<Sum>a<N. v a * (\<Sum>i<n. X i a))" .
  have "(\<Sum>i<n. y i)\<^sup>2 = (\<Sum>a<N. v a * (\<Sum>i<n. X i a)) * (\<Sum>b<N. v b * (\<Sum>i<n. X i b))"
    by (simp add: y power2_eq_square)
  also have "\<dots> = (\<Sum>a<N. \<Sum>b<N. (v a * (\<Sum>i<n. X i a)) * (v b * (\<Sum>i<n. X i b)))"
    by (rule sum_product)
  also have "\<dots> = (\<Sum>a<N. \<Sum>b<N. v a * ((\<Sum>i<n. X i a) * (\<Sum>i<n. X i b)) * v b)"
    by (intro sum.cong refl) (simp add: mult_ac)
  finally have B: "(\<Sum>a<N. \<Sum>b<N. v a * ((\<Sum>i<n. X i a) * (\<Sum>i<n. X i b)) * v b) = (\<Sum>i<n. y i)\<^sup>2" ..
  have "(\<Sum>a<N. \<Sum>b<N. v a * (c *
               ((\<Sum>i<n. X i a * X i b) - (\<Sum>i<n. X i a) * (\<Sum>i<n. X i b) / real n)) * v b)
      = (\<Sum>a<N. \<Sum>b<N. c * (v a * (\<Sum>i<n. X i a * X i b) * v b) -
            c / real n * (v a * ((\<Sum>i<n. X i a) * (\<Sum>i<n. X i b)) * v b))"
    by (intro sum.cong refl) (simp add: algebra_simps)
  also have "\<dots> = c * (\<Sum>a<N. \<Sum>b<N. v a * (\<Sum>i<n. X i a * X i b) * v b) -
            c / real n * (\<Sum>a<N. \<Sum>b<N. v a * ((\<Sum>i<n. X i a) * (\<Sum>i<n. X i b)) * v b)"
    by (simp only: sum_subtractf sum_distrib_left)
  also have "\<dots> = c * ((\<Sum>i<n. (y i)\<^sup>2) - (\<Sum>i<n. y i)\<^sup>2 / real n)"
    unfolding A B by (simp add: right_diff_distrib)
  finally have eq: "(\<Sum>a<N. \<Sum>b<N. v a * (c *
               ((\<Sum>i<n. X i a * X i b) - (\<Sum>i<n. X i a) * (\<Sum>i<n. X i b) / real n)) * v b)
      = c * ((\<Sum>i<n. (y i)\<^sup>2) - (\<Sum>i<n. y i)\<^sup>2 / real n)" .
  have "0 \<le> (\<Sum>i<n. (y i)\<^sup>2) - (\<Sum>i<n. y i)\<^sup>2 / real n"
    using sum_squared_le [of n y] n by simp
  then have "0 \<le> c * ((\<Sum>i<n. (y i)\<^sup>2) - (\<Sum>i<n. y i)\<^sup>2 / real n)"
    using c by simp
  then have "0 \<le> (\<Sum>a<N. \<Sum>b<N. v a * (c *
               ((\<Sum>i<n. X i a * X i b) - (\<Sum>i<n. X i a) * (\<Sum>i<n. X i b) / real n)) * v b)"
    by (simp only: eq)
  then show ?thesis by (simp only: c_def)
qed

lemma mat_set_square:
  assumes "length m = N" "\<forall>r \<in> set m. length r = N" "i < N"
  shows "length (mat_set m i j v) = N \<and> (\<forall>r \<in> set (mat_set m i j v). length r = N)"
proof -
  have "set (mat_set m i j v) \<subseteq> insert ((m ! i)[j := v]) (set m)"
    unfolding mat_set_def by (rule set_update_subset_insert)
  moreover have "length ((m ! i)[j := v]) = N" using assms by simp
  ultimately show ?thesis using assms by (auto simp: mat_set_def)
qed

lemma mat_set_same:
  assumes "i < length m" "j < length (m ! i)"
  shows "mat_set m i j v ! i ! j = v"
  using assms by (simp add: mat_set_def)

lemma mat_set_other_row:
  assumes "x \<noteq> i"
  shows "mat_set m i j v ! x = m ! x"
  using assms by (simp add: mat_set_def)

lemma mat_set_other_column:
  assumes "y \<noteq> j"
  shows "mat_set m i j v ! x ! y = m ! x ! y"
proof (cases "x = i \<and> i < length m")
  case True
  then have "mat_set m i j v ! x = (m ! x)[j := v]" by (simp add: mat_set_def)
  then show ?thesis using assms by simp
next
  case False
  then have "mat_set m i j v ! x = m ! x"
    by (cases "x = i") (simp_all add: mat_set_def list_update_beyond)
  then show ?thesis by simp
qed

lemma toMatrix_step:
  fixes f :: real
  assumes sq: "length m = N" "\<forall>r \<in> set m. length r = N"
    and ab: "a < N" "b < N"
  defines "m' \<equiv> mat_set (mat_set m a b f) b a f"
  shows "length m' = N" and "\<forall>r \<in> set m'. length r = N"
    and "m' ! a ! b = f" and "m' ! b ! a = f"
    and "(x \<noteq> a \<or> y \<noteq> b) \<Longrightarrow> (x \<noteq> b \<or> y \<noteq> a) \<Longrightarrow> m' ! x ! y = m ! x ! y"
proof -
  let ?m1 = "mat_set m a b f"
  from mat_set_square [OF sq ab(1)]
  have sq1: "length ?m1 = N" "\<forall>r \<in> set ?m1. length r = N" by blast+
  from mat_set_square [OF sq1 ab(2)]
  show "length m' = N" "\<forall>r \<in> set m'. length r = N" unfolding m'_def by blast+
  have rows: "length (m ! a) = N" "length (?m1 ! b) = N" "a < length m" "b < length ?m1"
    using sq sq1 ab by simp_all
  show "m' ! b ! a = f"
    unfolding m'_def using rows ab by (intro mat_set_same) simp_all
  show "m' ! a ! b = f"
  proof (cases "a = b")
    case True
    have "m' ! b ! a = f" unfolding m'_def using rows ab by (intro mat_set_same) simp_all
    then show ?thesis unfolding True .
  next
    case False
    then have "m' ! a = ?m1 ! a" unfolding m'_def by (rule mat_set_other_row)
    moreover have "?m1 ! a ! b = f" using rows ab by (intro mat_set_same) simp_all
    ultimately show ?thesis by simp
  qed
  have other: "mat_set k i j v ! x ! y = k ! x ! y" if "x \<noteq> i \<or> y \<noteq> j" for k i j v
    using that mat_set_other_row [of x i k j v] mat_set_other_column [of y j k i v x] by metis
  show "m' ! x ! y = m ! x ! y" if "x \<noteq> a \<or> y \<noteq> b" "x \<noteq> b \<or> y \<noteq> a"
    unfolding m'_def using other [OF that(2)] other [OF that(1)] by (simp only:)
qed

lemma toMatrix_fold:
  fixes h :: "nat \<times> nat \<Rightarrow> real"
  assumes ps: "\<forall>(a, b) \<in> set ps. a \<le> b \<and> b < N"
    and sq: "length m = N" "\<forall>r \<in> set m. length r = N"
  defines "M \<equiv> fold (\<lambda>((si_a, si_b), f) matrix. mat_set (mat_set matrix si_a si_b f) si_b si_a f)
                  (map (\<lambda>pr. (pr, h pr)) ps) m"
  shows "length M = N \<and> (\<forall>r \<in> set M. length r = N) \<and>
         (\<forall>(a, b) \<in> set ps. M ! a ! b = h (a, b) \<and> M ! b ! a = h (a, b))"
  using ps unfolding M_def
proof (induction ps rule: rev_induct)
  case Nil
  then show ?case using sq by simp
next
  case (snoc pr ps)
  let ?step = "\<lambda>((si_a, si_b), f) matrix. mat_set (mat_set matrix si_a si_b f) si_b si_a f"
  let ?M = "fold ?step (map (\<lambda>pr. (pr, h pr)) ps) m"
  obtain a b where pr: "pr = (a, b)" by (cases pr)
  from snoc.prems pr have ab: "a \<le> b" "b < N" "a < N" by auto
  from snoc.prems have "\<forall>(a, b) \<in> set ps. a \<le> b \<and> b < N" by simp
  from snoc.IH [OF this]
  have sqM: "length ?M = N" "\<forall>r \<in> set ?M. length r = N"
    and old: "\<forall>(a, b) \<in> set ps. ?M ! a ! b = h (a, b) \<and> ?M ! b ! a = h (a, b)" by blast+
  let ?M' = "mat_set (mat_set ?M a b (h (a, b))) b a (h (a, b))"
  have fold: "fold ?step (map (\<lambda>pr. (pr, h pr)) (ps @ [pr])) m = ?M'"
    by (simp add: pr)
  note step = toMatrix_step [OF sqM ab(3) ab(2), where f = "h (a, b)"]
  have new: "?M' ! c ! e = h (c, e) \<and> ?M' ! e ! c = h (c, e)" if ce: "(c, e) \<in> set (ps @ [pr])" for c e
  proof (cases "c = a \<and> e = b")
    case True
    then have c: "c = a" and e: "e = b" by simp_all
    show ?thesis unfolding c e using step(3) step(4) by (rule conjI)
  next
    case False
    then have in_ps: "(c, e) \<in> set ps" using ce pr by auto
    with old have o: "?M ! c ! e = h (c, e)" "?M ! e ! c = h (c, e)" by blast+
    from snoc.prems in_ps have le: "c \<le> e" by auto
    from False have n1: "c \<noteq> a \<or> e \<noteq> b" by blast
    from le ab(1) n1 have n2: "c \<noteq> b \<or> e \<noteq> a" by linarith
    from n1 have n3: "e \<noteq> b \<or> c \<noteq> a" by blast
    from n2 have n4: "e \<noteq> a \<or> c \<noteq> b" by blast
    have "?M' ! c ! e = ?M ! c ! e" using n1 n2 by (rule step(5))
    moreover have "?M' ! e ! c = ?M ! e ! c" using n4 n3 by (rule step(5))
    ultimately show ?thesis using o by (simp only:)
  qed
  show ?case unfolding fold
  proof (intro conjI)
    show "length ?M' = N" by (rule step(1))
    show "\<forall>r \<in> set ?M'. length r = N" by (rule step(2))
    show "\<forall>(c, e) \<in> set (ps @ [pr]). ?M' ! c ! e = h (c, e) \<and> ?M' ! e ! c = h (c, e)"
      using new by blast
  qed
qed

lemma factor_pairs_mem: "(a, b) \<in> set (factor_pairs N) \<longleftrightarrow> a \<le> b \<and> b < N"
proof
  assume "(a, b) \<in> set (factor_pairs N)"
  then show "a \<le> b \<and> b < N" by (auto simp: factor_pairs_def)
next
  assume "a \<le> b \<and> b < N"
  then have "a \<in> {0..<N}" "(a, b) \<in> Pair a ` {a..<N}" by auto
  then show "(a, b) \<in> set (factor_pairs N)" unfolding factor_pairs_def by auto
qed

lemma toMatrix_map:
  fixes h :: "nat \<times> nat \<Rightarrow> real"
  assumes "a < N" "b < N"
  shows "toMatrix N (map h (factor_pairs N)) ! a ! b = h (min a b, max a b)"
proof -
  let ?T = "toMatrix N (map h (factor_pairs N))"
  have z: "zip (factor_pairs N) (map h (factor_pairs N)) = map (\<lambda>pr. (pr, h pr)) (factor_pairs N)"
    by (simp add: zip_map2 zip_same_conv_map)
  have all: "\<forall>(c, e) \<in> set (factor_pairs N). ?T ! c ! e = h (c, e) \<and> ?T ! e ! c = h (c, e)"
  proof -
    have "\<forall>(c, e) \<in> set (factor_pairs N). c \<le> e \<and> e < N"
      by (auto simp: factor_pairs_mem)
    from toMatrix_fold [OF this, of "replicate N (replicate N 0)" h]
    show ?thesis unfolding toMatrix_def z by simp
  qed
  have "(min a b, max a b) \<in> set (factor_pairs N)"
    using assms by (simp add: factor_pairs_mem)
  with all have r: "?T ! min a b ! max a b = h (min a b, max a b)"
      "?T ! max a b ! min a b = h (min a b, max a b)"
    by blast+
  show ?thesis
  proof (cases "a \<le> b")
    case True
    then have "min a b = a" "max a b = b" by simp_all
    with r(1) show ?thesis by simp
  next
    case False
    then have "min a b = b" "max a b = a" by simp_all
    with r(2) show ?thesis by simp
  qed
qed

lemma sum_list_index:
  fixes f :: "'a \<Rightarrow> real"
  shows "sum_list (map f xs) = (\<Sum>i<length xs. f (xs ! i))"
proof -
  have "sum_list (map f xs) = (\<Sum>i = 0..<length (map f xs). map f xs ! i)"
    by (rule sum_list_sum_nth)
  also have "\<dots> = (\<Sum>i<length xs. f (xs ! i))"
    by (simp add: atLeast0LessThan)
  finally show ?thesis .
qed

lemma init_values:
  assumes run: "init ar N system cycle bins statistics p0 = Some p"
    and T: "1 \<le> numOfThreads system"
    and j: "j < fst (imageResolution system) * snd (imageResolution system)"
  shows "sample_value_table p ! j =
           map (\<lambda>si. init_expected_value ar cycle (sampleTable statistics ! j ! si)) [0..<N]"
    and "covariance_factor_table p ! j =
           map (\<lambda>(a, b). init_covariance_factor ar cycle (cross_sum statistics j a b)
                  (sampleTable statistics ! j ! a) (sampleTable statistics ! j ! b))
             (factor_pairs N)"
    and "b < bins \<Longrightarrow>
           histogram_table p ! (b * (fst (imageResolution system) * snd (imageResolution system)) + j) =
             map (\<lambda>si. histogramTable statistics ! (bins * j + b) ! si) [0..<N]"
proof -
  from init_result [OF run T j]
  have meta: "resolution p = imageResolution system" "num_of_samples p = cycle" "histogram_bins p = bins"
    and pd: "pixel_done ar N statistics p j"
    and hd: "\<forall>b < bins. histogram_done N statistics p b j" by blast+
  from pd show "sample_value_table p ! j =
           map (\<lambda>si. init_expected_value ar cycle (sampleTable statistics ! j ! si)) [0..<N]"
    by (simp add: pixel_done_def meta)
  from pd show "covariance_factor_table p ! j =
           map (\<lambda>(a, b). init_covariance_factor ar cycle (cross_sum statistics j a b)
                  (sampleTable statistics ! j ! a) (sampleTable statistics ! j ! b))
             (factor_pairs N)"
    by (simp add: pixel_done_def meta)
  show "histogram_table p ! (b * (fst (imageResolution system) * snd (imageResolution system)) + j) =
             map (\<lambda>si. histogramTable statistics ! (bins * j + b) ! si) [0..<N]" if "b < bins"
    using hd that by (simp add: histogram_done_def meta)
qed

lemma init_expected_value_exact:
  "init_expected_value exact_arithmetic n s = s / real n"
  by (simp add: init_expected_value_def exact_arithmetic_def)

lemma init_covariance_factor_exact:
  assumes "2 \<le> n"
  shows "init_covariance_factor exact_arithmetic n s_ab s_a s_b =
           1 / (real n * (real n - 1)) * (s_ab - s_a * s_b / real n)"
proof -
  have "real (usub n 1) = real n - 1" using assms by (simp add: usub_minus of_nat_diff)
  then show ?thesis
    by (simp add: init_covariance_factor_def exact_arithmetic_def Let_def mult.commute)
qed

lemma accumulated_sums:
  assumes acc: "accumulated N statistics j samples" and a: "a < N" and b: "b < N"
  shows "sampleTable statistics ! j ! a = (\<Sum>i<length samples. samples ! i ! a)"
    and "cross_sum statistics j (min a b) (max a b) =
           (\<Sum>i<length samples. samples ! i ! a * samples ! i ! b)"
proof -
  from acc a show "sampleTable statistics ! j ! a = (\<Sum>i<length samples. samples ! i ! a)"
    by (simp add: accumulated_def list_all_iff sum_list_index)
  have "(min a b, max a b) \<in> set (factor_pairs N)"
    using a b by (simp add: factor_pairs_mem)
  with acc have "cross_sum statistics j (min a b) (max a b) =
         (\<Sum>i<length samples. samples ! i ! min a b * samples ! i ! max a b)"
    unfolding accumulated_def list_all_iff sum_list_index by blast
  also have "\<dots> = (\<Sum>i<length samples. samples ! i ! a * samples ! i ! b)"
    by (cases "a \<le> b") (simp_all add: min_def max_def mult.commute)
  finally show "cross_sum statistics j (min a b) (max a b) =
           (\<Sum>i<length samples. samples ! i ! a * samples ! i ! b)" .
qed

text \<open>C2, as stated, fails: \<open>init\<close> computes in the arithmetic of \<^verbatim>\<open>Float\<close>, and its
  results are rounded. For one pixel with 75 samples of value 7 the arithmetic of
  \<^verbatim>\<open>double\<close> gives the expected value \<open>7 + 2\<^sup>-\<^sup>5\<^sup>0\<close>, not the accumulated sum divided
  by the number of samples, and a negative variance factor, so that the matrix rebuilt
  from the factors is not positive semi-definite, although the statistics are the sums
  over the 75 samples.\<close>

theorem C2_init_rounding_counterexample:
  "init (ieee_arithmetic 53) 1 ex_system1 75 1 ex_statistics75 Parameters_new
     = Some ex_parameters75 \<and>
   accumulated 1 ex_statistics75 0 (replicate 75 [7]) \<and>
   sampleTable ex_statistics75 ! 0 ! 0 / real 75 = 7 \<and>
   sample_value_table ex_parameters75 ! 0 ! 0 = 7 + 1 / 2 ^ 50 \<and>
   covariance_factor_table ex_parameters75 ! 0 ! 0 < 0 \<and>
   toMatrix 1 (covariance_factor_table ex_parameters75 ! 0) ! 0 ! 0 < 0"
  by code_simp

text \<open>C2, amended: after \<open>init\<close> with at least two samples per pixel, for every pixel
  \<open>j\<close> of the image and in every arithmetic of \<^verbatim>\<open>Float\<close>: each channel of the expected
  value is the product of \<open>k = 1 / n\<close> and the accumulated sum
  (\<open>init_expected_value\<close>); the covariance factor of the channel pair \<open>(a, b)\<close>,
  \<open>a \<le> b\<close>, is \<open>(S\<^sub>a\<^sub>b - k * S\<^sub>a * S\<^sub>b) * (k * k1)\<close> with \<open>k1 = 1 / (n - 1)\<close>, each operation
  rounded (\<open>init_covariance_factor\<close>); the matrix that \<open>toMatrix\<close> rebuilds from the
  factors has these entries and is symmetric; and bin \<open>b\<close> of the pixel's histogram is
  copied unchanged from the entry \<open>bins * j + b\<close> of the statistics to the entry
  \<open>b * (w * h) + j\<close> of the scale. In the arithmetic without rounding the expected value is
  the accumulated sum divided by \<open>n\<close>, the factors are
  \<open>1 / (n (n - 1)) * (S\<^sub>a\<^sub>b - S\<^sub>a S\<^sub>b / n)\<close>, and the matrix is positive semi-definite when the
  statistics of the pixel are sums over \<open>n\<close> samples.\<close>

theorem C2_init:
  assumes run: "init ar N system cycle bins statistics p0 = Some p"
    and n: "2 \<le> cycle"
    and T: "1 \<le> numOfThreads system"
    and j: "j < fst (imageResolution system) * snd (imageResolution system)"
  shows "(\<forall>a<N. sample_value_table p ! j ! a =
             init_expected_value ar cycle (sampleTable statistics ! j ! a)) \<and>
    length (covariance_factor_table p ! j) = numOfFactors N \<and>
    (\<forall>k<numOfFactors N. covariance_factor_table p ! j ! k =
        (case factor_pairs N ! k of (a, b) \<Rightarrow>
           init_covariance_factor ar cycle (cross_sum statistics j a b)
             (sampleTable statistics ! j ! a) (sampleTable statistics ! j ! b))) \<and>
    (\<forall>a<N. \<forall>b<N. toMatrix N (covariance_factor_table p ! j) ! a ! b =
        init_covariance_factor ar cycle (cross_sum statistics j (min a b) (max a b))
          (sampleTable statistics ! j ! min a b) (sampleTable statistics ! j ! max a b)) \<and>
    (\<forall>a<N. \<forall>b<N. toMatrix N (covariance_factor_table p ! j) ! a ! b =
                     toMatrix N (covariance_factor_table p ! j) ! b ! a) \<and>
    (\<forall>b<bins. \<forall>a<N.
        histogram_table p ! (b * (fst (imageResolution system) * snd (imageResolution system)) + j) ! a =
          histogramTable statistics ! (bins * j + b) ! a) \<and>
    (ar = exact_arithmetic \<longrightarrow>
       (\<forall>a<N. sample_value_table p ! j ! a = sampleTable statistics ! j ! a / real cycle) \<and>
       (\<forall>a<N. \<forall>b<N. toMatrix N (covariance_factor_table p ! j) ! a ! b =
          1 / (real cycle * (real cycle - 1)) *
            (cross_sum statistics j (min a b) (max a b) -
               sampleTable statistics ! j ! a * sampleTable statistics ! j ! b / real cycle)) \<and>
       (accumulated N statistics j samples \<and> length samples = cycle \<longrightarrow>
          (\<forall>v. 0 \<le> (\<Sum>a<N. \<Sum>b<N.
                    v a * toMatrix N (covariance_factor_table p ! j) ! a ! b * v b))))"
proof -
  let ?c = "1 / (real cycle * (real cycle - 1))"
  let ?S = "\<lambda>a. sampleTable statistics ! j ! a"
  let ?h = "\<lambda>(a, b). init_covariance_factor ar cycle (cross_sum statistics j a b) (?S a) (?S b)"
  let ?M = "toMatrix N (covariance_factor_table p ! j)"
  note v = init_values [OF run T j]
  have sample: "\<forall>a<N. sample_value_table p ! j ! a = init_expected_value ar cycle (?S a)"
    by (simp add: v(1))
  have cf: "covariance_factor_table p ! j = map ?h (factor_pairs N)" by (rule v(2))
  have len: "length (covariance_factor_table p ! j) = numOfFactors N"
    by (simp add: cf numOfFactors_def)
  have factors: "\<forall>k<numOfFactors N. covariance_factor_table p ! j ! k = ?h (factor_pairs N ! k)"
    by (simp add: cf numOfFactors_def)
  have entry: "?M ! a ! b = ?h (min a b, max a b)" if "a < N" "b < N" for a b
    unfolding cf using that by (rule toMatrix_map)
  have sym: "?M ! a ! b = ?M ! b ! a" if "a < N" "b < N" for a b
    unfolding entry [OF that] entry [OF that(2) that(1)]
    by (simp add: min.commute max.commute)
  have hist: "\<forall>b<bins. \<forall>a<N.
        histogram_table p ! (b * (fst (imageResolution system) * snd (imageResolution system)) + j) ! a =
          histogramTable statistics ! (bins * j + b) ! a"
    by (simp add: v(3))
  have general: "(\<forall>a<N. sample_value_table p ! j ! a = init_expected_value ar cycle (?S a)) \<and>
    length (covariance_factor_table p ! j) = numOfFactors N \<and>
    (\<forall>k<numOfFactors N. covariance_factor_table p ! j ! k = ?h (factor_pairs N ! k)) \<and>
    (\<forall>a<N. \<forall>b<N. ?M ! a ! b = ?h (min a b, max a b)) \<and>
    (\<forall>a<N. \<forall>b<N. ?M ! a ! b = ?M ! b ! a) \<and>
    (\<forall>b<bins. \<forall>a<N.
        histogram_table p ! (b * (fst (imageResolution system) * snd (imageResolution system)) + j) ! a =
          histogramTable statistics ! (bins * j + b) ! a)"
    using sample len factors entry sym hist by blast
  have exact: "(\<forall>a<N. sample_value_table p ! j ! a = ?S a / real cycle) \<and>
       (\<forall>a<N. \<forall>b<N. ?M ! a ! b =
          ?c * (cross_sum statistics j (min a b) (max a b) - ?S a * ?S b / real cycle)) \<and>
       (accumulated N statistics j samples \<and> length samples = cycle \<longrightarrow>
          (\<forall>v. 0 \<le> (\<Sum>a<N. \<Sum>b<N. v a * ?M ! a ! b * v b)))"
    if ar: "ar = exact_arithmetic"
  proof -
    have e1: "\<forall>a<N. sample_value_table p ! j ! a = ?S a / real cycle"
      using sample by (simp add: ar init_expected_value_exact)
    have e2: "?M ! a ! b = ?c * (cross_sum statistics j (min a b) (max a b) - ?S a * ?S b / real cycle)"
      if "a < N" "b < N" for a b
    proof -
      have "?M ! a ! b = ?c * (cross_sum statistics j (min a b) (max a b) -
                                 ?S (min a b) * ?S (max a b) / real cycle)"
        unfolding entry [OF that] by (simp add: ar init_covariance_factor_exact [OF n])
      also have "?S (min a b) * ?S (max a b) = ?S a * ?S b"
        by (cases "a \<le> b") (simp_all add: min_def max_def mult.commute)
      finally show ?thesis .
    qed
    have psd: "0 \<le> (\<Sum>a<N. \<Sum>b<N. v a * ?M ! a ! b * v b)"
      if acc: "accumulated N statistics j samples" and l: "length samples = cycle" for v
    proof -
      let ?X = "\<lambda>i a. samples ! i ! a"
      have "(\<Sum>a<N. \<Sum>b<N. v a * ?M ! a ! b * v b) =
            (\<Sum>a<N. \<Sum>b<N. v a * (?c * ((\<Sum>i<cycle. ?X i a * ?X i b) -
                 (\<Sum>i<cycle. ?X i a) * (\<Sum>i<cycle. ?X i b) / real cycle)) * v b)"
      proof (intro sum.cong refl)
        fix a b assume "a \<in> {..<N}" "b \<in> {..<N}"
        then have ab: "a < N" "b < N" by simp_all
        note s = accumulated_sums [OF acc ab, unfolded l]
          accumulated_sums(1) [OF acc ab(2) ab(2), unfolded l]
        show "v a * ?M ! a ! b * v b = v a * (?c * ((\<Sum>i<cycle. ?X i a * ?X i b) -
                 (\<Sum>i<cycle. ?X i a) * (\<Sum>i<cycle. ?X i b) / real cycle)) * v b"
          unfolding e2 [OF ab] s ..
      qed
      also have "0 \<le> \<dots>" using n by (rule sample_covariance_psd)
      finally show ?thesis .
    qed
    from e1 e2 psd show ?thesis by blast
  qed
  from general exact show ?thesis by (simp only: split_conv) blast
qed

text \<open>The theorem at the first pixel of the \<open>2 \<times> 1\<close> example, without rounding.\<close>

theorem C2_init_witness:
  "init exact_arithmetic 2 ex_systemE 2 2 ex_statisticsE Parameters_new = Some ex_parametersE \<and>
   (2 :: nat) \<le> 2 \<and> 1 \<le> numOfThreads ex_systemE \<and>
   (0 :: nat) < fst (imageResolution ex_systemE) * snd (imageResolution ex_systemE) \<and>
   accumulated 2 ex_statisticsE 0 [[1, 2], [3, 1]] \<and> length [[1, 2], [3, 1 :: real]] = 2 \<and>
   sample_value_table ex_parametersE ! 0 ! 1 =
     init_expected_value exact_arithmetic 2 (sampleTable ex_statisticsE ! 0 ! 1) \<and>
   sample_value_table ex_parametersE ! 0 ! 1 = sampleTable ex_statisticsE ! 0 ! 1 / real 2 \<and>
   covariance_factor_table ex_parametersE ! 0 ! 1 =
     (case factor_pairs 2 ! 1 of (a, b) \<Rightarrow>
        init_covariance_factor exact_arithmetic 2 (cross_sum ex_statisticsE 0 a b)
          (sampleTable ex_statisticsE ! 0 ! a) (sampleTable ex_statisticsE ! 0 ! b)) \<and>
   toMatrix 2 (covariance_factor_table ex_parametersE ! 0) ! 1 ! 0 =
     1 / (real 2 * (real 2 - 1)) *
       (cross_sum ex_statisticsE 0 (min 1 0) (max 1 0) -
          sampleTable ex_statisticsE ! 0 ! 1 * sampleTable ex_statisticsE ! 0 ! 0 / real 2) \<and>
   toMatrix 2 (covariance_factor_table ex_parametersE ! 0) ! 1 ! 0 =
     toMatrix 2 (covariance_factor_table ex_parametersE ! 0) ! 0 ! 1 \<and>
   0 \<le> (\<Sum>a<2. \<Sum>b<2. (if a = 0 then 3 else - 1) *
            toMatrix 2 (covariance_factor_table ex_parametersE ! 0) ! a ! b *
            (if b = 0 then 3 else - 1)) \<and>
   histogram_table ex_parametersE !
       (1 * (fst (imageResolution ex_systemE) * snd (imageResolution ex_systemE)) + 0) ! 1 =
     histogramTable ex_statisticsE ! (2 * 0 + 1) ! 1"
proof -
  have run: "init exact_arithmetic 2 ex_systemE 2 2 ex_statisticsE Parameters_new = Some ex_parametersE"
    by code_simp
  have T: "1 \<le> numOfThreads ex_systemE" by (simp add: ex_systemE_def)
  have j: "(0 :: nat) < fst (imageResolution ex_systemE) * snd (imageResolution ex_systemE)"
    by (simp add: ex_systemE_def)
  have acc: "accumulated 2 ex_statisticsE 0 [[1, 2], [3, 1]]" by code_simp
  have len: "length [[1, 2], [3, 1 :: real]] = 2" by simp
  have f: "numOfFactors 2 = 3" by code_simp
  note r = C2_init [OF run order_refl T j, where samples = "[[1, 2], [3, 1]]"]
  from r have g1: "\<forall>a<2. sample_value_table ex_parametersE ! 0 ! a =
      init_expected_value exact_arithmetic 2 (sampleTable ex_statisticsE ! 0 ! a)"
    and g2: "\<forall>k<numOfFactors 2. covariance_factor_table ex_parametersE ! 0 ! k =
        (case factor_pairs 2 ! k of (a, b) \<Rightarrow>
           init_covariance_factor exact_arithmetic 2 (cross_sum ex_statisticsE 0 a b)
             (sampleTable ex_statisticsE ! 0 ! a) (sampleTable ex_statisticsE ! 0 ! b))"
    and g3: "\<forall>a<2. \<forall>b<2. toMatrix 2 (covariance_factor_table ex_parametersE ! 0) ! a ! b =
                     toMatrix 2 (covariance_factor_table ex_parametersE ! 0) ! b ! a"
    and e1: "\<forall>a<2. sample_value_table ex_parametersE ! 0 ! a =
      sampleTable ex_statisticsE ! 0 ! a / real 2"
    and e2: "\<forall>a<2. \<forall>b<2. toMatrix 2 (covariance_factor_table ex_parametersE ! 0) ! a ! b =
          1 / (real 2 * (real 2 - 1)) *
            (cross_sum ex_statisticsE 0 (min a b) (max a b) -
               sampleTable ex_statisticsE ! 0 ! a * sampleTable ex_statisticsE ! 0 ! b / real 2)"
    by blast+
  have "sample_value_table ex_parametersE ! 0 ! 1 =
     init_expected_value exact_arithmetic 2 (sampleTable ex_statisticsE ! 0 ! 1)"
    using g1 [THEN spec, of 1] by simp
  moreover have "sample_value_table ex_parametersE ! 0 ! 1 = sampleTable ex_statisticsE ! 0 ! 1 / real 2"
    using e1 [THEN spec, of 1] by simp
  moreover have "covariance_factor_table ex_parametersE ! 0 ! 1 =
     (case factor_pairs 2 ! 1 of (a, b) \<Rightarrow>
        init_covariance_factor exact_arithmetic 2 (cross_sum ex_statisticsE 0 a b)
          (sampleTable ex_statisticsE ! 0 ! a) (sampleTable ex_statisticsE ! 0 ! b))"
    using g2 [THEN spec, of 1] f by simp
  moreover have "toMatrix 2 (covariance_factor_table ex_parametersE ! 0) ! 1 ! 0 =
     1 / (real 2 * (real 2 - 1)) *
       (cross_sum ex_statisticsE 0 (min 1 0) (max 1 0) -
          sampleTable ex_statisticsE ! 0 ! 1 * sampleTable ex_statisticsE ! 0 ! 0 / real 2)"
    using e2 [THEN spec, of 1, THEN mp, THEN spec, of 0, THEN mp] by simp
  moreover have "toMatrix 2 (covariance_factor_table ex_parametersE ! 0) ! 1 ! 0 =
     toMatrix 2 (covariance_factor_table ex_parametersE ! 0) ! 0 ! 1"
    using g3 [THEN spec, of 1, THEN mp, THEN spec, of 0, THEN mp] by simp
  moreover have "0 \<le> (\<Sum>a<2. \<Sum>b<2. (if a = 0 then 3 else - 1) *
            toMatrix 2 (covariance_factor_table ex_parametersE ! 0) ! a ! b *
            (if b = 0 then 3 else - 1))"
  proof -
    from r acc len have "\<forall>v. 0 \<le> (\<Sum>a<2. \<Sum>b<2. v a *
            toMatrix 2 (covariance_factor_table ex_parametersE ! 0) ! a ! b * v b)"
      by blast
    from this [THEN spec, of "\<lambda>a. if a = 0 then 3 else - 1"] show ?thesis .
  qed
  moreover have "histogram_table ex_parametersE !
       (1 * (fst (imageResolution ex_systemE) * snd (imageResolution ex_systemE)) + 0) ! 1 =
     histogramTable ex_statisticsE ! (2 * 0 + 1) ! 1"
  proof -
    from r have "\<forall>b<2. \<forall>a<2. histogram_table ex_parametersE !
       (b * (fst (imageResolution ex_systemE) * snd (imageResolution ex_systemE)) + 0) ! a =
     histogramTable ex_statisticsE ! (2 * 0 + b) ! a"
      by blast
    from this [THEN spec, of 1, THEN mp, THEN spec, of 1, THEN mp] show ?thesis by simp
  qed
  ultimately show ?thesis using run T j acc len by (intro conjI) simp_all
qed
end
